theory Spec2Isabelle
  imports Main "HOL-Library.Sublist"
begin

section \<open>Data model\<close>

text \<open>
  The script \<^verbatim>\<open>indices_example.py\<close> is glue code over three external libraries (xarray,
  xclim and the repository's own \<^verbatim>\<open>utils\<close> helpers, none of them part of the sources).
  What the script itself fixes is which library calls are made, in which order, with which
  arguments, and where the results go.  The embedding therefore keeps every library function
  as a parameter (the record \<open>env\<close> below) and makes the script's observable effects
  explicit: the library calls performed, the warnings shown, the text printed and the file
  system handed back by the writer.

  A \<open>DataArray\<close> is a name and a payload (values, coordinates, attributes: opaque here).
  A \<open>Dataset\<close> has global attributes and named data variables; both are Python dicts,
  whose equality ignores insertion order, hence maps.
\<close>

datatype 'v data_array = DataArray (name: string) (payload: 'v)

datatype ('v, 'a) dataset =
  Dataset (attrs: "string \<rightharpoonup> 'a") (data_vars: "string \<rightharpoonup> 'v data_array")

text \<open>
  \<^verbatim>\<open>ds_out[key] = da\<close>: the variable is attached under \<open>key\<close>; attributes are untouched.
  What xarray does to the coordinates on the way (it merges those of the array into the
  dataset and aligns the array with the indexes already there) is inside the opaque payload
  and is not modelled: the model speaks about the names and the attributes of a dataset,
  not about the values stored.
\<close>

definition setitem :: "('v, 'a) dataset \<Rightarrow> string \<Rightarrow> 'v data_array \<Rightarrow> ('v, 'a) dataset" where
  "setitem ds key da = Dataset (attrs ds) ((data_vars ds)(key \<mapsto> da))"

subsection \<open>Warnings and the warnings filter\<close>

text \<open>
  Python's \<^verbatim>\<open>warnings\<close> module: a warning has a text, a category (a class below
  \<^verbatim>\<open>Warning\<close>), and the module and line that issued it.  A category is written as the
  chain of class names from the class itself up to, and excluding, \<^verbatim>\<open>Warning\<close>; so
  \<^verbatim>\<open>Warning\<close> is \<open>[]\<close>, \<^verbatim>\<open>RuntimeWarning\<close> is \<open>[''RuntimeWarning'']\<close>, and
  \<^verbatim>\<open>issubclass(c, d)\<close> is \<open>suffix d c\<close>.
\<close>

record warning =
  w_text :: string
  w_category :: "string list"
  w_module :: string
  w_lineno :: nat

datatype action = Ignore | Error | Always | Default | Module | Once

text \<open>
  An entry of \<^verbatim>\<open>warnings.filters\<close> is the tuple (action, message, category, module,
  lineno); a message or module of \<^verbatim>\<open>None\<close> and a line number of 0 match everything.
\<close>

record wfilter =
  f_action :: action
  f_message :: "string option"
  f_category :: "string list"
  f_module :: "string option"
  f_lineno :: nat

type_synonym regex = "bool \<Rightarrow> string \<Rightarrow> string \<Rightarrow> bool"
  \<comment> \<open>\<^verbatim>\<open>re.compile(pattern, re.I if flag else 0).match(text)\<close>, an external library\<close>

definition filter_matches :: "regex \<Rightarrow> wfilter \<Rightarrow> warning \<Rightarrow> bool" where
  "filter_matches rx f x \<longleftrightarrow>
     (case f_message f of None \<Rightarrow> True | Some p \<Rightarrow> rx True p (w_text x)) \<and>
     suffix (f_category f) (w_category x) \<and>
     (case f_module f of None \<Rightarrow> True | Some p \<Rightarrow> rx False p (w_module x)) \<and>
     (f_lineno f = 0 \<or> w_lineno x = f_lineno f)"

text \<open>The first matching filter decides; with none, the default action applies.\<close>

fun action_for :: "regex \<Rightarrow> wfilter list \<Rightarrow> warning \<Rightarrow> action" where
  "action_for rx [] x = Default"
| "action_for rx (f # fs) x =
     (if filter_matches rx f x then f_action f else action_for rx fs x)"

text \<open>
  \<^verbatim>\<open>warnings.filterwarnings(action)\<close> with every other argument at its default: the entry
  \<^verbatim>\<open>(action, None, Warning, None, 0)\<close> is moved to the front of the filter list.
\<close>

definition filterwarnings :: "action \<Rightarrow> wfilter list \<Rightarrow> wfilter list" where
  "filterwarnings a F =
     (let item = \<lparr>f_action = a, f_message = None, f_category = [], f_module = None, f_lineno = 0\<rparr>
      in item # remove1 item F)"

text \<open>
  A library call issues its warnings in order.  An ignored warning disappears, a warning
  whose action is \<open>Error\<close> is raised as an exception at that point, every other action
  shows the warning (the registries that show a repeated warning only once are not
  modelled: a warning counted as shown here is one that the filter lets through).
\<close>

fun issue :: "regex \<Rightarrow> wfilter list \<Rightarrow> warning list \<Rightarrow> warning list \<times> warning option" where
  "issue rx F [] = ([], None)"
| "issue rx F (x # xs) =
     (case action_for rx F x of
        Ignore \<Rightarrow> issue rx F xs
      | Error \<Rightarrow> ([], Some x)
      | _ \<Rightarrow> (case issue rx F xs of (shown, r) \<Rightarrow> (x # shown, r)))"

subsection \<open>Errors, library outcomes, effects\<close>

datatype error =
    Exception string        \<comment> \<open>\<^verbatim>\<open>raise Exception(msg)\<close> of the script itself\<close>
  | AttributeError string   \<comment> \<open>\<^verbatim>\<open>ds.pr\<close> on a dataset without that variable\<close>
  | NameError string        \<comment> \<open>reading a local variable that is not bound\<close>
  | LibraryError string     \<comment> \<open>an exception propagated unchanged from a library\<close>
  | WarningError warning    \<comment> \<open>a warning turned into an exception by the filter\<close>

text \<open>What a library call does: the warnings it issues, then an exception or a value.\<close>

type_synonym 'x lib = "warning list \<times> (string + 'x)"

datatype kwval = Str string | Num int

datatype ('v, 'a, 'c) effect =
    GetFolderPath string
  | GetSavePath string
  | OpenMfdataset string string
  | ResampleMean "('v, 'a) dataset" string bool
  | Xc string "'v data_array list" "(string \<times> kwval) list"
  | GetToNetcdfEncodings "('v, 'a) dataset" int
  | ToNetcdf "('v, 'a) dataset" string string 'c
  | ShowWarning warning
  | Print string

type_synonym ('x, 'v, 'a, 'c) outcome = "(error + 'x) \<times> ('v, 'a, 'c) effect list"

definition lib_result :: "regex \<Rightarrow> wfilter list \<Rightarrow> 'x lib \<Rightarrow> error + 'x" where
  "lib_result rx F r =
     (case snd (issue rx F (fst r)) of
        Some x \<Rightarrow> Inl (WarningError x)
      | None \<Rightarrow> (case snd r of Inl m \<Rightarrow> Inl (LibraryError m) | Inr v \<Rightarrow> Inr v))"

definition lib_call :: "regex \<Rightarrow> wfilter list \<Rightarrow> 'x lib \<Rightarrow> ('x, 'v, 'a, 'c) outcome" where
  "lib_call rx F r = (lib_result rx F r, map ShowWarning (fst (issue rx F (fst r))))"

text \<open>A call is logged when it is entered, before what it shows.\<close>

definition logged :: "('v, 'a, 'c) effect \<Rightarrow> ('x, 'v, 'a, 'c) outcome \<Rightarrow> ('x, 'v, 'a, 'c) outcome" where
  "logged e m = (fst m, e # snd m)"

text \<open>Sequencing: the first exception ends the run; effects accumulate in order.\<close>

definition and_then ::
  "('x, 'v, 'a, 'c) outcome \<Rightarrow> ('x \<Rightarrow> ('y, 'v, 'a, 'c) outcome) \<Rightarrow> ('y, 'v, 'a, 'c) outcome" where
  "and_then m k =
     (case m of
        (Inl e, es) \<Rightarrow> (Inl e, es)
      | (Inr x, es) \<Rightarrow> (case k x of (r, es') \<Rightarrow> (r, es @ es')))"

subsection \<open>The external libraries\<close>

text \<open>
  Every library function is a function of its arguments: what a library does beside
  returning (a clock it reads, a cache or an option it changes) is not in the model, and
  nothing below speaks about it.
  \<open>'v\<close> array payloads, \<open>'a\<close> attribute values, \<open>'f\<close> the file system, \<open>'c\<close> the
  encodings handed to the writer.  The two dialogs return the chosen path, or a falsy
  value (\<^verbatim>\<open>None\<close> or the empty string) when the user cancels.  \<open>xc\<close> is the xclim
  library, called by the dotted name of the function below \<^verbatim>\<open>xc.\<close>, with positional
  array arguments and keyword arguments.
\<close>

record ('v, 'a, 'f, 'c) env =
  get_folder_path :: "string \<Rightarrow> string option"
  get_save_path :: "string \<Rightarrow> string option"
  get_to_netcdf_encodings :: "('v, 'a) dataset \<Rightarrow> int \<Rightarrow> 'c lib"
  open_mfdataset :: "'f \<Rightarrow> string \<Rightarrow> string \<Rightarrow> ('v, 'a) dataset lib"
  resample_mean :: "('v, 'a) dataset \<Rightarrow> string \<Rightarrow> bool \<Rightarrow> ('v, 'a) dataset lib"
  xc :: "string \<Rightarrow> 'v data_array list \<Rightarrow> (string \<times> kwval) list \<Rightarrow> 'v data_array lib"
  to_netcdf :: "'f \<Rightarrow> ('v, 'a) dataset \<Rightarrow> string \<Rightarrow> string \<Rightarrow> 'c \<Rightarrow> 'f \<times> unit lib"
  re_match :: regex

text \<open>What a run leaves behind: the file system, how it ended, and what it did.\<close>

record ('v, 'a, 'f, 'c) run =
  files :: 'f
  result :: "error + unit"
  effects :: "('v, 'a, 'c) effect list"

section \<open>The indicator calls\<close>

text \<open>
  Lines 79 to 152 are a straight line of two kinds of statement:
  \<^item> \<^verbatim>\<open>x = f(args, kwargs)\<close> binds a local array (\<open>Assign\<close>);
  \<^item> \<^verbatim>\<open>da = f(args, kwargs); ds_out[da.name] = da\<close> attaches the result to the output
    dataset under the name it carries (\<open>Insert\<close>; the local \<^verbatim>\<open>da\<close> is read by nothing
    else, so it is not kept).
  A positional argument is a variable of the input dataset (\<^verbatim>\<open>ds.pr\<close>) or a local.
  \<^verbatim>\<open>ds.pr\<close> is looked up among the data variables only (xarray would also find a
  coordinate or a global attribute of that name, and the library would then be called with
  it): a dataset without the variable ends the run here.
\<close>

datatype operand = DsVar string | Local string

datatype call = Call (func: string) (args: "operand list") (kwargs: "(string \<times> kwval) list")

datatype stmt = Assign string call | Insert call

fun call_of :: "stmt \<Rightarrow> call" where
  "call_of (Assign x c) = c"
| "call_of (Insert c) = c"

definition indicator_stmts :: "stmt list" where
  "indicator_stmts =
    [Insert (Call ''atmos.wetdays'' [DsVar ''pr''] [(''thresh'', Str ''1 mm/day''), (''freq'', Str ''YS'')]),
     Insert (Call ''atmos.maximum_consecutive_dry_days'' [DsVar ''pr''] [(''thresh'', Str ''1 mm/day''), (''freq'', Str ''YS'')]),
     Insert (Call ''atmos.maximum_consecutive_wet_days'' [DsVar ''pr''] [(''thresh'', Str ''1 mm/day''), (''freq'', Str ''YS'')]),
     Insert (Call ''atmos.precip_accumulation'' [DsVar ''pr''] [(''freq'', Str ''YS'')]),
     Insert (Call ''atmos.daily_pr_intensity'' [DsVar ''pr''] [(''thresh'', Str ''1 mm/day''), (''freq'', Str ''YS'')]),
     Insert (Call ''atmos.max_1day_precipitation_amount'' [DsVar ''pr''] [(''freq'', Str ''YS'')]),
     Insert (Call ''atmos.max_n_day_precipitation_amount'' [DsVar ''pr''] [(''window'', Num 5), (''freq'', Str ''YS'')]),
     Insert (Call ''atmos.tx_max'' [DsVar ''tasmax''] [(''freq'', Str ''YS'')]),
     Insert (Call ''atmos.tn_max'' [DsVar ''tasmin''] [(''freq'', Str ''YS'')]),
     Insert (Call ''atmos.tx_min'' [DsVar ''tasmax''] [(''freq'', Str ''YS'')]),
     Insert (Call ''atmos.tn_min'' [DsVar ''tasmin''] [(''freq'', Str ''YS'')]),
     Insert (Call ''atmos.frost_days'' [DsVar ''tasmin''] [(''freq'', Str ''YS'')]),
     Insert (Call ''atmos.ice_days'' [DsVar ''tasmax''] [(''freq'', Str ''YS'')]),
     Insert (Call ''atmos.tx_days_above'' [DsVar ''tasmax''] [(''thresh'', Str ''25 degC''), (''freq'', Str ''YS'')]),
     Insert (Call ''atmos.tropical_nights'' [DsVar ''tasmin''] [(''thresh'', Str ''20 degC''), (''freq'', Str ''YS'')]),
     Assign ''tas'' (Call ''indices.tas'' [DsVar ''tasmin'', DsVar ''tasmax''] []),
     Assign ''t10'' (Call ''core.calendar.percentile_doy'' [Local ''tas''] [(''per'', Num 10)]),
     Assign ''t90'' (Call ''core.calendar.percentile_doy'' [Local ''tas''] [(''per'', Num 90)]),
     Assign ''tn10'' (Call ''core.calendar.percentile_doy'' [DsVar ''tasmin''] [(''per'', Num 10)]),
     Insert (Call ''atmos.tx10p'' [DsVar ''tasmax'', Local ''t10''] [(''freq'', Str ''YS'')]),
     Insert (Call ''atmos.tx90p'' [DsVar ''tasmax'', Local ''t90''] [(''freq'', Str ''YS'')]),
     Insert (Call ''atmos.tn10p'' [DsVar ''tasmin'', Local ''t10''] [(''freq'', Str ''YS'')]),
     Insert (Call ''atmos.tn90p'' [DsVar ''tasmin'', Local ''t90''] [(''freq'', Str ''YS'')]),
     Insert (Call ''atmos.cold_spell_duration_index'' [DsVar ''tasmin'', Local ''tn10'']
               [(''window'', Num 1), (''freq'', Str ''YS'')])]"

subsection \<open>Running the statements\<close>

type_synonym 'v locals = "string \<rightharpoonup> 'v data_array"

fun eval_operand :: "('v, 'a) dataset \<Rightarrow> 'v locals \<Rightarrow> operand \<Rightarrow> error + 'v data_array" where
  "eval_operand ds L (DsVar n) =
     (case data_vars ds n of None \<Rightarrow> Inl (AttributeError n) | Some a \<Rightarrow> Inr a)"
| "eval_operand ds L (Local x) =
     (case L x of None \<Rightarrow> Inl (NameError x) | Some a \<Rightarrow> Inr a)"

fun eval_args :: "('v, 'a) dataset \<Rightarrow> 'v locals \<Rightarrow> operand list \<Rightarrow> error + 'v data_array list" where
  "eval_args ds L [] = Inr []"
| "eval_args ds L (a # as) =
     (case eval_operand ds L a of
        Inl e \<Rightarrow> Inl e
      | Inr v \<Rightarrow> (case eval_args ds L as of Inl e \<Rightarrow> Inl e | Inr vs \<Rightarrow> Inr (v # vs)))"

text \<open>
  A call evaluates its arguments left to right, then enters the library; the call is
  logged with the arrays it received, followed by the warnings it let through.
\<close>

definition exec_call ::
  "('v, 'a, 'f, 'c) env \<Rightarrow> wfilter list \<Rightarrow> ('v, 'a) dataset \<Rightarrow> 'v locals \<Rightarrow> call
     \<Rightarrow> ('v data_array, 'v, 'a, 'c) outcome" where
  "exec_call env F ds L c =
     (case eval_args ds L (args c) of
        Inl e \<Rightarrow> (Inl e, [])
      | Inr vs \<Rightarrow>
          logged (Xc (func c) vs (kwargs c))
            (lib_call (re_match env) F (xc env (func c) vs (kwargs c))))"

fun exec_stmt ::
  "('v, 'a, 'f, 'c) env \<Rightarrow> wfilter list \<Rightarrow> ('v, 'a) dataset \<Rightarrow> stmt
     \<Rightarrow> 'v locals \<times> ('v, 'a) dataset \<Rightarrow> ('v locals \<times> ('v, 'a) dataset, 'v, 'a, 'c) outcome" where
  "exec_stmt env F ds (Assign x c) (L, ds_out) =
     and_then (exec_call env F ds L c) (\<lambda>da. (Inr (L(x \<mapsto> da), ds_out), []))"
| "exec_stmt env F ds (Insert c) (L, ds_out) =
     and_then (exec_call env F ds L c) (\<lambda>da. (Inr (L, setitem ds_out (name da) da), []))"

fun exec_stmts ::
  "('v, 'a, 'f, 'c) env \<Rightarrow> wfilter list \<Rightarrow> ('v, 'a) dataset \<Rightarrow> stmt list
     \<Rightarrow> 'v locals \<times> ('v, 'a) dataset \<Rightarrow> ('v locals \<times> ('v, 'a) dataset, 'v, 'a, 'c) outcome" where
  "exec_stmts env F ds [] st = (Inr st, [])"
| "exec_stmts env F ds (s # ss) st =
     and_then (exec_stmt env F ds s st) (exec_stmts env F ds ss)"

section \<open>The script\<close>

text \<open>
  Lines 34 to 55: the two dialogs, then the dataset is opened from the glob pattern and
  resampled to daily means.  \<^verbatim>\<open>not x\<close> holds of \<^verbatim>\<open>None\<close> and of the empty string.
\<close>

definition falsy :: "string option \<Rightarrow> bool" where
  "falsy a \<longleftrightarrow> (case a of None \<Rightarrow> True | Some s \<Rightarrow> s = [])"

definition select_paths :: "('v, 'a, 'f, 'c) env \<Rightarrow> (string \<times> string, 'v, 'a, 'c) outcome" where
  "select_paths env =
     (let fldr_in = get_folder_path env ''Select input folder'' in
      if falsy fldr_in then
        (Inl (Exception ''Folder selection aborted''), [GetFolderPath ''Select input folder''])
      else
        let fldr_in = the fldr_in @ ''*.nc'';
            file_out = get_save_path env ''Select output file'' in
        if falsy file_out then
          (Inl (Exception ''Save file selection aborted''),
           [GetFolderPath ''Select input folder'', GetSavePath ''Select output file''])
        else
          (Inr (fldr_in, the file_out),
           [GetFolderPath ''Select input folder'', GetSavePath ''Select output file'']))"

definition load_dataset ::
  "('v, 'a, 'f, 'c) env \<Rightarrow> wfilter list \<Rightarrow> 'f \<Rightarrow> string \<Rightarrow> (('v, 'a) dataset, 'v, 'a, 'c) outcome" where
  "load_dataset env F fs fldr_in =
     and_then
       (logged (OpenMfdataset fldr_in ''netcdf4'')
          (lib_call (re_match env) F (open_mfdataset env fs fldr_in ''netcdf4'')))
       (\<lambda>ds. logged (ResampleMean ds ''D'' True)
               (lib_call (re_match env) F (resample_mean env ds ''D'' True)))"

text \<open>
  Lines 67 to 152: the output dataset starts with the input's global attributes and no
  variable; the statements run from no local bound; the output dataset is what remains.
\<close>

definition compute_indices ::
  "('v, 'a, 'f, 'c) env \<Rightarrow> wfilter list \<Rightarrow> ('v, 'a) dataset \<Rightarrow> (('v, 'a) dataset, 'v, 'a, 'c) outcome" where
  "compute_indices env F ds =
     and_then (exec_stmts env F ds indicator_stmts (Map.empty, Dataset (attrs ds) Map.empty))
       (\<lambda>st. (Inr (snd st), []))"

text \<open>
  Lines 157 to 160: the encodings are computed at compression level 4 and the dataset is
  written.  The writer returns the file system it leaves behind, also when it raises.
\<close>

definition save_dataset ::
  "('v, 'a, 'f, 'c) env \<Rightarrow> wfilter list \<Rightarrow> 'f \<Rightarrow> ('v, 'a) dataset \<Rightarrow> string
     \<Rightarrow> ('v, 'a, 'f, 'c) run" where
  "save_dataset env F fs ds_out file_out =
     (case logged (GetToNetcdfEncodings ds_out 4)
             (lib_call (re_match env) F (get_to_netcdf_encodings env ds_out 4)) of
        (Inl e, es) \<Rightarrow> \<lparr>files = fs, result = Inl e, effects = es\<rparr>
      | (Inr encodings, es) \<Rightarrow>
          (case to_netcdf env fs ds_out file_out ''netcdf4'' encodings of
             (fs', r) \<Rightarrow>
               (case logged (ToNetcdf ds_out file_out ''netcdf4'' encodings)
                       (lib_call (re_match env) F r) of
                  (res, es') \<Rightarrow> \<lparr>files = fs', result = res, effects = es @ es'\<rparr>)))"

text \<open>
  The whole function, run under the warning filters \<open>F\<close> on the file system \<open>fs\<close>:
  everything up to the populated output dataset (lines 34 to 152), then the save.
\<close>

definition build_output ::
  "('v, 'a, 'f, 'c) env \<Rightarrow> wfilter list \<Rightarrow> 'f \<Rightarrow> (('v, 'a) dataset \<times> string, 'v, 'a, 'c) outcome" where
  "build_output env F fs =
     and_then (select_paths env)
       (\<lambda>(fldr_in, file_out).
          and_then (load_dataset env F fs fldr_in)
            (\<lambda>ds. and_then (compute_indices env F ds)
              (\<lambda>ds_out. (Inr (ds_out, file_out), []))))"

definition do_generate_indices ::
  "('v, 'a, 'f, 'c) env \<Rightarrow> wfilter list \<Rightarrow> 'f \<Rightarrow> ('v, 'a, 'f, 'c) run" where
  "do_generate_indices env F fs =
     (case build_output env F fs of
        (Inl e, es) \<Rightarrow> \<lparr>files = fs, result = Inl e, effects = es\<rparr>
      | (Inr (ds_out, file_out), es) \<Rightarrow>
          (let r = save_dataset env F fs ds_out file_out in r\<lparr>effects := es @ effects r\<rparr>))"

text \<open>
  Lines 163 to 167: inside \<^verbatim>\<open>catch_warnings\<close> every warning is set to be ignored, the
  function runs, and the completion message is printed if it returned.  On exit the
  filter list is the caller's \<open>F\<close> again, also when the body raised.
\<close>

definition main :: "('v, 'a, 'f, 'c) env \<Rightarrow> wfilter list \<Rightarrow> 'f \<Rightarrow> ('v, 'a, 'f, 'c) run" where
  "main env F fs =
     (let r = do_generate_indices env (filterwarnings Ignore F) fs in
      case result r of
        Inl e \<Rightarrow> r
      | Inr u \<Rightarrow> r\<lparr>effects := effects r @ [Print ''Done!!!'']\<rparr>)"

section \<open>Auxiliary notions\<close>

text \<open>
  The locals read by the arguments of a call.
\<close>

fun uses :: "operand list \<Rightarrow> string list" where
  "uses [] = []"
| "uses (DsVar n # as) = uses as"
| "uses (Local x # as) = x # uses as"

text \<open>
  Every local is bound once, and before any statement that reads it; \<open>bound\<close> are the
  locals bound so far.
\<close>

fun well_formed :: "string list \<Rightarrow> stmt list \<Rightarrow> bool" where
  "well_formed bound [] = True"
| "well_formed bound (Assign x c # ss) =
     (set (uses (args c)) \<subseteq> set bound \<and> x \<notin> set bound \<and> well_formed (x # bound) ss)"
| "well_formed bound (Insert c # ss) =
     (set (uses (args c)) \<subseteq> set bound \<and> well_formed bound ss)"

text \<open>
  The locals a statement list binds.
\<close>

fun targets :: "stmt list \<Rightarrow> string list" where
  "targets [] = []"
| "targets (Assign x c # ss) = x # targets ss"
| "targets (Insert c # ss) = targets ss"

text \<open>
  What a statement attaches to the output dataset when the locals are \<open>L\<close>.
\<close>

fun inserted_by ::
  "('v, 'a, 'f, 'c) env \<Rightarrow> wfilter list \<Rightarrow> ('v, 'a) dataset \<Rightarrow> 'v locals \<Rightarrow> stmt
     \<Rightarrow> (string \<times> 'v data_array) list" where
  "inserted_by env F ds L (Assign x c) = []"
| "inserted_by env F ds L (Insert c) =
     (case fst (exec_call env F ds L c) of Inl e \<Rightarrow> [] | Inr da \<Rightarrow> [(name da, da)])"

text \<open>
  Attaching a list of named arrays in order; a later entry replaces an earlier one of the
  same name.
\<close>

definition attach :: "('v, 'a) dataset \<Rightarrow> (string \<times> 'v data_array) list \<Rightarrow> ('v, 'a) dataset" where
  "attach out kvs = Dataset (attrs out) (data_vars out ++ map_of (rev kvs))"

text \<open>
  A statement succeeds under the locals \<open>L\<close>, and \<open>L\<close> holds its result if it binds one.
\<close>

definition consistent ::
  "('v, 'a, 'f, 'c) env \<Rightarrow> wfilter list \<Rightarrow> ('v, 'a) dataset \<Rightarrow> 'v locals \<Rightarrow> stmt \<Rightarrow> bool" where
  "consistent env F ds L s \<longleftrightarrow>
     (case fst (exec_call env F ds L (call_of s)) of
        Inl e \<Rightarrow> False
      | Inr da \<Rightarrow> (case s of Assign x c \<Rightarrow> L x = Some da | Insert c \<Rightarrow> True))"

text \<open>
  The warnings shown among a list of effects.
\<close>

fun shown :: "('v, 'a, 'c) effect list \<Rightarrow> warning list" where
  "shown [] = []"
| "shown (ShowWarning x # es) = x # shown es"
| "shown (e # es) = shown es"

text \<open>
  An outcome that shows no warning and raises none.
\<close>

definition quiet :: "('x, 'v, 'a, 'c) outcome \<Rightarrow> bool" where
  "quiet m \<longleftrightarrow> shown (snd m) = [] \<and> (\<forall>x. fst m \<noteq> Inl (WarningError x))"

text \<open>
  The glob patterns of the dataset loader (Python's \<^verbatim>\<open>glob\<close>), as far as they are needed
  here: \<^verbatim>\<open>*\<close> matches any run of characters within one path component, \<^verbatim>\<open>?\<close> a single
  one, every other character itself.  No wildcard matches the separator \<^verbatim>\<open>/\<close>.  Two
  things Python does are left out, and both make Python match less, never across a
  separator: a wildcard at the start of a component does not match a name that starts
  with a dot, and \<^verbatim>\<open>[...]\<close> is a character class.
\<close>

fun glob_match :: "string \<Rightarrow> string \<Rightarrow> bool" where
  "glob_match [] s = (s = [])"
| "glob_match (p # ps) [] = (p = CHR ''*'' \<and> glob_match ps [])"
| "glob_match (p # ps) (c # cs) =
     (if p = CHR ''*'' then glob_match ps (c # cs) \<or> (c \<noteq> CHR ''/'' \<and> glob_match (p # ps) cs)
      else if p = CHR ''?'' then c \<noteq> CHR ''/'' \<and> glob_match ps cs
      else p = c \<and> glob_match ps cs)"

text \<open>
  The xclim calls, the loader calls and the writer calls among a list of effects.
\<close>

fun calls :: "('v, 'a, 'c) effect list \<Rightarrow> (string \<times> 'v data_array list \<times> (string \<times> kwval) list) list" where
  "calls [] = []"
| "calls (Xc f vs kw # es) = (f, vs, kw) # calls es"
| "calls (e # es) = calls es"

fun opens :: "('v, 'a, 'c) effect list \<Rightarrow> (string \<times> string) list" where
  "opens [] = []"
| "opens (OpenMfdataset p e # es) = (p, e) # opens es"
| "opens (e # es) = opens es"

fun writes :: "('v, 'a, 'c) effect list \<Rightarrow> (('v, 'a) dataset \<times> string \<times> string \<times> 'c) list" where
  "writes [] = []"
| "writes (ToNetcdf ds p e c # es) = (ds, p, e, c) # writes es"
| "writes (e # es) = writes es"

text \<open>
  The function and the keyword arguments of a call.
\<close>

definition signature :: "call \<Rightarrow> string \<times> (string \<times> kwval) list" where
  "signature c = (func c, kwargs c)"

text \<open>
  The functions called by the inserting statements (the indicators), and by the binding
  statements (the intermediate series).
\<close>

fun insert_funcs :: "stmt list \<Rightarrow> string list" where
  "insert_funcs [] = []"
| "insert_funcs (Assign x c # ss) = insert_funcs ss"
| "insert_funcs (Insert c # ss) = func c # insert_funcs ss"

fun assign_funcs :: "stmt list \<Rightarrow> string list" where
  "assign_funcs [] = []"
| "assign_funcs (Assign x c # ss) = func c # assign_funcs ss"
| "assign_funcs (Insert c # ss) = assign_funcs ss"

text \<open>
  The functions of the statements that read the local \<open>x\<close>; the bindings of a statement
  list.
\<close>

fun readers :: "string \<Rightarrow> stmt list \<Rightarrow> string list" where
  "readers x [] = []"
| "readers x (s # ss) =
     (if x \<in> set (uses (args (call_of s))) then func (call_of s) # readers x ss
      else readers x ss)"

fun assignments :: "stmt list \<Rightarrow> (string \<times> call) list" where
  "assignments [] = []"
| "assignments (Assign x c # ss) = (x, c) # assignments ss"
| "assignments (Insert c # ss) = assignments ss"

section \<open>A concrete library\<close>

text \<open>
  A concrete library in which nothing fails: every xclim function issues one warning and
  returns an array that is named after the function and records how it was computed.
\<close>

datatype prov = Input string | Apply string "prov list" "(string \<times> kwval) list"

definition demo_ds :: "(prov, string) dataset" where
  "demo_ds = Dataset [''title'' \<mapsto> ''demo'']
     [''pr'' \<mapsto> DataArray ''pr'' (Input ''pr''),
      ''tasmax'' \<mapsto> DataArray ''tasmax'' (Input ''tasmax''),
      ''tasmin'' \<mapsto> DataArray ''tasmin'' (Input ''tasmin'')]"

definition demo_warning :: "string \<Rightarrow> warning" where
  "demo_warning f = \<lparr>w_text = f, w_category = [''RuntimeWarning''], w_module = ''xclim'', w_lineno = 1\<rparr>"

definition demo_env :: "(prov, string, (string \<times> (prov, string) dataset) list, int) env" where
  "demo_env =
     \<lparr>get_folder_path = (\<lambda>title. Some ''/data/cmip''),
      get_save_path = (\<lambda>title. Some ''/out/indices.nc''),
      get_to_netcdf_encodings = (\<lambda>ds level. ([], Inr level)),
      open_mfdataset = (\<lambda>fs pattern engine. ([], Inr demo_ds)),
      resample_mean = (\<lambda>ds freq keep_attrs. ([], Inr ds)),
      xc = (\<lambda>f vs kw. ([demo_warning f], Inr (DataArray f (Apply f (map payload vs) kw)))),
      to_netcdf = (\<lambda>fs ds path engine enc. ((path, ds) # fs, ([], Inr ()))),
      re_match = (\<lambda>ignore_case pattern s. True)\<rparr>"

text \<open>
  The arrays, locals, calls and output dataset of the run of the script in that library.
\<close>

definition demo_var :: "string \<Rightarrow> prov data_array" where
  "demo_var n = DataArray n (Input n)"

definition demo_result :: "string \<Rightarrow> prov data_array list \<Rightarrow> (string \<times> kwval) list \<Rightarrow> prov data_array" where
  "demo_result f vs kw = DataArray f (Apply f (map payload vs) kw)"

definition demo_tas :: "prov data_array" where
  "demo_tas = demo_result ''indices.tas'' [demo_var ''tasmin'', demo_var ''tasmax''] []"

definition demo_t10 :: "prov data_array" where
  "demo_t10 = demo_result ''core.calendar.percentile_doy'' [demo_tas] [(''per'', Num 10)]"

definition demo_t90 :: "prov data_array" where
  "demo_t90 = demo_result ''core.calendar.percentile_doy'' [demo_tas] [(''per'', Num 90)]"

definition demo_tn10 :: "prov data_array" where
  "demo_tn10 = demo_result ''core.calendar.percentile_doy'' [demo_var ''tasmin''] [(''per'', Num 10)]"

definition demo_locals :: "prov locals" where
  "demo_locals = [''tas'' \<mapsto> demo_tas, ''t10'' \<mapsto> demo_t10, ''t90'' \<mapsto> demo_t90, ''tn10'' \<mapsto> demo_tn10]"

definition demo_calls :: "(string \<times> prov data_array list \<times> (string \<times> kwval) list) list" where
  "demo_calls =
    [(''atmos.wetdays'', [demo_var ''pr''], [(''thresh'', Str ''1 mm/day''), (''freq'', Str ''YS'')]),
     (''atmos.maximum_consecutive_dry_days'', [demo_var ''pr''], [(''thresh'', Str ''1 mm/day''), (''freq'', Str ''YS'')]),
     (''atmos.maximum_consecutive_wet_days'', [demo_var ''pr''], [(''thresh'', Str ''1 mm/day''), (''freq'', Str ''YS'')]),
     (''atmos.precip_accumulation'', [demo_var ''pr''], [(''freq'', Str ''YS'')]),
     (''atmos.daily_pr_intensity'', [demo_var ''pr''], [(''thresh'', Str ''1 mm/day''), (''freq'', Str ''YS'')]),
     (''atmos.max_1day_precipitation_amount'', [demo_var ''pr''], [(''freq'', Str ''YS'')]),
     (''atmos.max_n_day_precipitation_amount'', [demo_var ''pr''], [(''window'', Num 5), (''freq'', Str ''YS'')]),
     (''atmos.tx_max'', [demo_var ''tasmax''], [(''freq'', Str ''YS'')]),
     (''atmos.tn_max'', [demo_var ''tasmin''], [(''freq'', Str ''YS'')]),
     (''atmos.tx_min'', [demo_var ''tasmax''], [(''freq'', Str ''YS'')]),
     (''atmos.tn_min'', [demo_var ''tasmin''], [(''freq'', Str ''YS'')]),
     (''atmos.frost_days'', [demo_var ''tasmin''], [(''freq'', Str ''YS'')]),
     (''atmos.ice_days'', [demo_var ''tasmax''], [(''freq'', Str ''YS'')]),
     (''atmos.tx_days_above'', [demo_var ''tasmax''], [(''thresh'', Str ''25 degC''), (''freq'', Str ''YS'')]),
     (''atmos.tropical_nights'', [demo_var ''tasmin''], [(''thresh'', Str ''20 degC''), (''freq'', Str ''YS'')]),
     (''indices.tas'', [demo_var ''tasmin'', demo_var ''tasmax''], []),
     (''core.calendar.percentile_doy'', [demo_tas], [(''per'', Num 10)]),
     (''core.calendar.percentile_doy'', [demo_tas], [(''per'', Num 90)]),
     (''core.calendar.percentile_doy'', [demo_var ''tasmin''], [(''per'', Num 10)]),
     (''atmos.tx10p'', [demo_var ''tasmax'', demo_t10], [(''freq'', Str ''YS'')]),
     (''atmos.tx90p'', [demo_var ''tasmax'', demo_t90], [(''freq'', Str ''YS'')]),
     (''atmos.tn10p'', [demo_var ''tasmin'', demo_t10], [(''freq'', Str ''YS'')]),
     (''atmos.tn90p'', [demo_var ''tasmin'', demo_t90], [(''freq'', Str ''YS'')]),
     (''atmos.cold_spell_duration_index'', [demo_var ''tasmin'', demo_tn10], [(''window'', Num 1), (''freq'', Str ''YS'')])]"

definition demo_indices :: "(string \<times> prov data_array) list" where
  "demo_indices =
    [(''atmos.wetdays'', demo_result ''atmos.wetdays'' [demo_var ''pr''] [(''thresh'', Str ''1 mm/day''), (''freq'', Str ''YS'')]),
     (''atmos.maximum_consecutive_dry_days'', demo_result ''atmos.maximum_consecutive_dry_days'' [demo_var ''pr''] [(''thresh'', Str ''1 mm/day''), (''freq'', Str ''YS'')]),
     (''atmos.maximum_consecutive_wet_days'', demo_result ''atmos.maximum_consecutive_wet_days'' [demo_var ''pr''] [(''thresh'', Str ''1 mm/day''), (''freq'', Str ''YS'')]),
     (''atmos.precip_accumulation'', demo_result ''atmos.precip_accumulation'' [demo_var ''pr''] [(''freq'', Str ''YS'')]),
     (''atmos.daily_pr_intensity'', demo_result ''atmos.daily_pr_intensity'' [demo_var ''pr''] [(''thresh'', Str ''1 mm/day''), (''freq'', Str ''YS'')]),
     (''atmos.max_1day_precipitation_amount'', demo_result ''atmos.max_1day_precipitation_amount'' [demo_var ''pr''] [(''freq'', Str ''YS'')]),
     (''atmos.max_n_day_precipitation_amount'', demo_result ''atmos.max_n_day_precipitation_amount'' [demo_var ''pr''] [(''window'', Num 5), (''freq'', Str ''YS'')]),
     (''atmos.tx_max'', demo_result ''atmos.tx_max'' [demo_var ''tasmax''] [(''freq'', Str ''YS'')]),
     (''atmos.tn_max'', demo_result ''atmos.tn_max'' [demo_var ''tasmin''] [(''freq'', Str ''YS'')]),
     (''atmos.tx_min'', demo_result ''atmos.tx_min'' [demo_var ''tasmax''] [(''freq'', Str ''YS'')]),
     (''atmos.tn_min'', demo_result ''atmos.tn_min'' [demo_var ''tasmin''] [(''freq'', Str ''YS'')]),
     (''atmos.frost_days'', demo_result ''atmos.frost_days'' [demo_var ''tasmin''] [(''freq'', Str ''YS'')]),
     (''atmos.ice_days'', demo_result ''atmos.ice_days'' [demo_var ''tasmax''] [(''freq'', Str ''YS'')]),
     (''atmos.tx_days_above'', demo_result ''atmos.tx_days_above'' [demo_var ''tasmax''] [(''thresh'', Str ''25 degC''), (''freq'', Str ''YS'')]),
     (''atmos.tropical_nights'', demo_result ''atmos.tropical_nights'' [demo_var ''tasmin''] [(''thresh'', Str ''20 degC''), (''freq'', Str ''YS'')]),
     (''atmos.tx10p'', demo_result ''atmos.tx10p'' [demo_var ''tasmax'', demo_t10] [(''freq'', Str ''YS'')]),
     (''atmos.tx90p'', demo_result ''atmos.tx90p'' [demo_var ''tasmax'', demo_t90] [(''freq'', Str ''YS'')]),
     (''atmos.tn10p'', demo_result ''atmos.tn10p'' [demo_var ''tasmin'', demo_t10] [(''freq'', Str ''YS'')]),
     (''atmos.tn90p'', demo_result ''atmos.tn90p'' [demo_var ''tasmin'', demo_t90] [(''freq'', Str ''YS'')]),
     (''atmos.cold_spell_duration_index'', demo_result ''atmos.cold_spell_duration_index'' [demo_var ''tasmin'', demo_tn10] [(''window'', Num 1), (''freq'', Str ''YS'')])]"

definition demo_out :: "(prov, string) dataset" where
  "demo_out = attach (Dataset [''title'' \<mapsto> ''demo''] Map.empty) demo_indices"

text \<open>
  The same library with the save dialog cancelled.
\<close>

definition demo_cancel_env :: "(prov, string, (string \<times> (prov, string) dataset) list, int) env" where
  "demo_cancel_env = demo_env\<lparr>get_save_path := (\<lambda>title. None)\<rparr>"

section \<open>Properties of the statement interpreter\<close>

lemma and_then_Inl [simp]: "and_then (Inl e, es) k = (Inl e, es)"
  by (simp add: and_then_def)

lemma and_then_Inr [simp]: "and_then (Inr x, es) k = (fst (k x), es @ snd (k x))"
  by (simp add: and_then_def split: prod.splits)

lemma fst_and_then:
  "fst (and_then m k) = (case fst m of Inl e \<Rightarrow> Inl e | Inr x \<Rightarrow> fst (k x))"
  by (cases m) (auto simp: and_then_def split: sum.splits prod.splits)

lemma snd_and_then:
  "snd (and_then m k) = (case fst m of Inl e \<Rightarrow> snd m | Inr x \<Rightarrow> snd m @ snd (k x))"
  by (cases m) (auto simp: and_then_def split: sum.splits prod.splits)

lemma and_then_eq_Inr:
  "and_then m k = (Inr y, es) \<longleftrightarrow>
     (\<exists>x es1 es2. m = (Inr x, es1) \<and> k x = (Inr y, es2) \<and> es = es1 @ es2)"
  by (cases m) (auto simp: and_then_def split: sum.splits prod.splits)

lemma eval_args_cong:
  "\<forall>x \<in> set (uses as). L x = L' x \<Longrightarrow> eval_args ds L as = eval_args ds L' as"
  by (induction as rule: uses.induct) (auto split: sum.splits option.splits)

lemma exec_call_cong:
  "\<forall>x \<in> set (uses (args c)). L x = L' x \<Longrightarrow> exec_call env F ds L c = exec_call env F ds L' c"
  by (simp add: exec_call_def eval_args_cong [of _ L L'])

lemma eval_args_bound:
  "eval_args ds L as = Inr vs \<Longrightarrow> set (uses as) \<subseteq> dom L"
  by (induction as arbitrary: vs rule: uses.induct) (auto split: sum.splits option.splits)

lemma attach_Nil [simp]: "attach out [] = out"
  by (simp add: attach_def)

lemma attach_append: "attach out (xs @ ys) = attach (attach out xs) ys"
  by (simp add: attach_def)

lemma attach_single: "attach out [(k, v)] = setitem out k v"
  by (simp add: attach_def setitem_def)

lemma exec_stmt_Inr:
  "exec_stmt env F ds s (L, out) = (Inr (L', out'), es) \<longleftrightarrow>
     (\<exists>da. exec_call env F ds L (call_of s) = (Inr da, es) \<and>
       (case s of Assign x c \<Rightarrow> L' = L(x \<mapsto> da) \<and> out' = out
                | Insert c \<Rightarrow> L' = L \<and> out' = setitem out (name da) da))"
  by (cases s) (auto simp: and_then_eq_Inr)

lemma exec_stmts_forward:
  assumes "well_formed bound ss" and "dom L = set bound"
      and "exec_stmts env F ds ss (L, out) = (Inr (L', out'), es)"
  shows "L \<subseteq>\<^sub>m L' \<and> dom L' = set bound \<union> set (targets ss) \<and>
         (\<forall>s \<in> set ss. consistent env F ds L' s) \<and>
         es = concat (map (\<lambda>s. snd (exec_call env F ds L' (call_of s))) ss) \<and>
         out' = attach out (concat (map (inserted_by env F ds L') ss))"
  using assms
proof (induction ss arbitrary: bound L out es)
  case Nil
  then show ?case by simp
next
  case (Cons s ss)
  from Cons.prems(3) obtain L1 out1 es1 es2 where
    step: "exec_stmt env F ds s (L, out) = (Inr (L1, out1), es1)" and
    rest: "exec_stmts env F ds ss (L1, out1) = (Inr (L', out'), es2)" and
    es: "es = es1 @ es2"
    by (auto simp: and_then_eq_Inr)
  from step obtain da where
    call: "exec_call env F ds L (call_of s) = (Inr da, es1)" and
    upd: "case s of Assign x c \<Rightarrow> L1 = L(x \<mapsto> da) \<and> out1 = out
                  | Insert c \<Rightarrow> L1 = L \<and> out1 = setitem out (name da) da"
    by (auto simp: exec_stmt_Inr)
  define bound1 where "bound1 = (case s of Assign x c \<Rightarrow> x # bound | Insert c \<Rightarrow> bound)"
  have wf1: "well_formed bound1 ss" and used: "set (uses (args (call_of s))) \<subseteq> set bound"
    and fresh: "case s of Assign x c \<Rightarrow> x \<notin> set bound | Insert c \<Rightarrow> True"
    using Cons.prems(1) by (cases s; simp add: bound1_def)+
  have dom1: "dom L1 = set bound1"
    using upd Cons.prems(2) by (cases s) (auto simp: bound1_def)
  have le1: "L \<subseteq>\<^sub>m L1"
    using upd fresh Cons.prems(2) by (cases s) (auto simp: map_le_def)
  note IH = Cons.IH [OF wf1 dom1 rest]
  have le: "L \<subseteq>\<^sub>m L'"
    using le1 IH by (blast intro: map_le_trans)
  have same: "exec_call env F ds L' (call_of s) = exec_call env F ds L (call_of s)"
  proof (rule exec_call_cong)
    show "\<forall>x\<in>set (uses (args (call_of s))). L' x = L x"
      using used le Cons.prems(2) by (auto simp: map_le_def)
  qed
  have L1s: "case s of Assign x c \<Rightarrow> L' x = Some da | Insert c \<Rightarrow> True"
  proof (cases s)
    case (Assign x c)
    then have "L1 x = Some da" using upd by simp
    then show ?thesis using IH Assign by (auto simp: map_le_def dom_def)
  qed simp
  have cons: "consistent env F ds L' s"
    using same call L1s by (cases s) (auto simp: consistent_def)
  have ins: "attach out (inserted_by env F ds L' s) = out1"
    using same call upd by (cases s) (auto simp: attach_single)
  have dom': "dom L' = set bound \<union> set (targets (s # ss))"
    using IH by (cases s) (auto simp: bound1_def)
  show ?case
    using le dom' cons IH same call es ins by (simp add: attach_append)
qed

lemma attach_Cons: "attach out ((k, v) # xs) = attach (setitem out k v) xs"
  using attach_append [of out "[(k, v)]" xs] by (simp add: attach_single)

lemma exec_stmts_backward:
  assumes "well_formed bound ss" and "dom L = set bound" and "L \<subseteq>\<^sub>m Lf"
      and "\<forall>s \<in> set ss. consistent env F ds Lf s"
  shows "\<exists>L'. fst (exec_stmts env F ds ss (L, out))
                 = Inr (L', attach out (concat (map (inserted_by env F ds Lf) ss))) \<and>
              L' \<subseteq>\<^sub>m Lf \<and> dom L' = set bound \<union> set (targets ss)"
  using assms
proof (induction ss arbitrary: bound L out)
  case Nil
  then show ?case by simp
next
  case (Cons s ss)
  have used: "set (uses (args (call_of s))) \<subseteq> set bound"
    using Cons.prems(1) by (cases s) simp_all
  have same: "exec_call env F ds L (call_of s) = exec_call env F ds Lf (call_of s)"
  proof (rule exec_call_cong)
    show "\<forall>x\<in>set (uses (args (call_of s))). L x = Lf x"
      using used Cons.prems(2,3) by (auto simp: map_le_def)
  qed
  have cons: "consistent env F ds Lf s" using Cons.prems(4) by simp
  then obtain da where da: "fst (exec_call env F ds Lf (call_of s)) = Inr da"
    by (auto simp: consistent_def split: sum.splits)
  have rest: "\<forall>s \<in> set ss. consistent env F ds Lf s" using Cons.prems(4) by simp
  show ?case
  proof (cases s)
    case (Assign x c)
    have Lfx: "Lf x = Some da" using cons da Assign by (simp add: consistent_def)
    have wf1: "well_formed (x # bound) ss" using Cons.prems(1) Assign by simp
    have dom1: "dom (L(x \<mapsto> da)) = set (x # bound)" using Cons.prems(2) by auto
    have le1: "L(x \<mapsto> da) \<subseteq>\<^sub>m Lf" using Cons.prems(3) Lfx by (auto simp: map_le_def)
    have step: "exec_stmt env F ds s (L, out) = (Inr (L(x \<mapsto> da), out), snd (exec_call env F ds Lf c))"
      using same da Assign by (cases "exec_call env F ds Lf c") simp
    from Cons.IH [OF wf1 dom1 le1 rest, of out]
    obtain L' where L':
      "fst (exec_stmts env F ds ss (L(x \<mapsto> da), out))
         = Inr (L', attach out (concat (map (inserted_by env F ds Lf) ss)))"
      "L' \<subseteq>\<^sub>m Lf" "dom L' = set (x # bound) \<union> set (targets ss)"
      by blast
    have "fst (exec_stmts env F ds (s # ss) (L, out))
            = Inr (L', attach out (concat (map (inserted_by env F ds Lf) (s # ss))))"
      using step L'(1) Assign by simp
    moreover have "dom L' = set bound \<union> set (targets (s # ss))"
      using L'(3) Assign by simp
    ultimately show ?thesis using L'(2) by blast
  next
    case (Insert c)
    have wf1: "well_formed bound ss" using Cons.prems(1) Insert by simp
    have step: "exec_stmt env F ds s (L, out)
                  = (Inr (L, setitem out (name da) da), snd (exec_call env F ds Lf c))"
      using same da Insert by (cases "exec_call env F ds Lf c") simp
    from Cons.IH [OF wf1 Cons.prems(2,3) rest, of "setitem out (name da) da"]
    obtain L' where L':
      "fst (exec_stmts env F ds ss (L, setitem out (name da) da))
         = Inr (L', attach (setitem out (name da) da) (concat (map (inserted_by env F ds Lf) ss)))"
      "L' \<subseteq>\<^sub>m Lf" "dom L' = set bound \<union> set (targets ss)"
      by blast
    have "fst (exec_stmts env F ds (s # ss) (L, out))
            = Inr (L', attach out (concat (map (inserted_by env F ds Lf) (s # ss))))"
      using step L'(1) Insert da by (simp add: attach_Cons)
    moreover have "dom L' = set bound \<union> set (targets (s # ss))"
      using L'(3) Insert by simp
    ultimately show ?thesis using L'(2) by blast
  qed
qed

lemma well_formed_indicator_stmts: "well_formed [] indicator_stmts"
  by (simp add: indicator_stmts_def)

lemma map_le_same_dom: "f \<subseteq>\<^sub>m g \<Longrightarrow> dom f = dom g \<Longrightarrow> f = g"
proof (rule map_le_antisym)
  assume le: "f \<subseteq>\<^sub>m g" and d: "dom f = dom g"
  show "f \<subseteq>\<^sub>m g" by (rule le)
  show "g \<subseteq>\<^sub>m f"
    unfolding map_le_def
  proof
    fix a assume "a \<in> dom g"
    then have "a \<in> dom f" using d by simp
    then show "g a = f a" using le by (simp add: map_le_def)
  qed
qed

lemma dom_attach_empty:
  "dom (data_vars (attach (Dataset A Map.empty) kvs)) = set (map fst kvs)"
  by (simp add: attach_def dom_map_of_conv_image_fst)

section \<open>Warnings under the ignore-all filter\<close>

lemma shown_append [simp]: "shown (es @ es') = shown es @ shown es'"
  by (induction es rule: shown.induct) simp_all

lemma shown_map_ShowWarning [simp]: "shown (map ShowWarning xs) = xs"
  by (induction xs) simp_all

lemma action_for_ignore_all: "action_for rx (filterwarnings Ignore F) x = Ignore"
  by (simp add: filterwarnings_def filter_matches_def Let_def)

lemma issue_ignore_all: "issue rx (filterwarnings Ignore F) xs = ([], None)"
  by (induction xs) (simp_all add: action_for_ignore_all)

lemma quiet_lib_call: "quiet (lib_call rx (filterwarnings Ignore F) r)"
  by (simp add: quiet_def lib_call_def lib_result_def issue_ignore_all split: sum.splits)

lemma quiet_and_then:
  assumes "quiet m" and "\<And>x. quiet (k x)"
  shows "quiet (and_then m k)"
proof (cases m)
  case (Pair r es)
  show ?thesis
  proof (cases r)
    case (Inl e)
    then show ?thesis using assms(1) Pair by (simp add: quiet_def)
  next
    case (Inr x)
    then show ?thesis using assms(1) assms(2) [of x] Pair by (simp add: quiet_def)
  qed
qed

lemma quiet_logged: "shown [e] = [] \<Longrightarrow> quiet m \<Longrightarrow> quiet (logged e m)"
  by (cases e) (simp_all add: quiet_def logged_def)

lemma eval_args_error: "eval_args ds L as = Inl e \<Longrightarrow> e \<noteq> WarningError x"
  by (induction as arbitrary: e rule: uses.induct) (auto split: sum.splits option.splits)

lemma quiet_exec_call: "quiet (exec_call env (filterwarnings Ignore F) ds L c)"
proof (cases "eval_args ds L (args c)")
  case (Inl e)
  then show ?thesis by (simp add: exec_call_def quiet_def eval_args_error)
next
  case (Inr vs)
  then show ?thesis by (simp add: exec_call_def quiet_logged quiet_lib_call)
qed

lemma quiet_return: "quiet (Inr x, [])"
  by (simp add: quiet_def)

lemma quiet_exec_stmt: "quiet (exec_stmt env (filterwarnings Ignore F) ds s st)"
proof (cases st)
  case (Pair L out)
  then show ?thesis
    by (cases s) (simp_all add: quiet_and_then quiet_exec_call quiet_return)
qed

lemma quiet_exec_stmts: "quiet (exec_stmts env (filterwarnings Ignore F) ds ss st)"
proof (induction ss arbitrary: st)
  case Nil
  show ?case by (simp add: quiet_def)
next
  case (Cons s ss)
  show ?case by (simp add: quiet_and_then quiet_exec_stmt Cons.IH)
qed

lemma quiet_select_paths: "quiet (select_paths env)"
  by (simp add: select_paths_def quiet_def Let_def)

lemma quiet_load_dataset: "quiet (load_dataset env (filterwarnings Ignore F) fs p)"
  unfolding load_dataset_def
  by (intro quiet_and_then quiet_logged quiet_lib_call) simp_all

lemma quiet_compute_indices: "quiet (compute_indices env (filterwarnings Ignore F) ds)"
  unfolding compute_indices_def
  by (intro quiet_and_then quiet_exec_stmts) (simp add: quiet_def)

lemma quiet_save_dataset:
  "quiet (result (save_dataset env (filterwarnings Ignore F) fs ds_out file_out),
          effects (save_dataset env (filterwarnings Ignore F) fs ds_out file_out))"
  by (simp add: save_dataset_def quiet_def logged_def lib_call_def lib_result_def
        issue_ignore_all split: prod.splits sum.splits)

lemma quiet_build_output: "quiet (build_output env (filterwarnings Ignore F) fs)"
  unfolding build_output_def
  by (intro quiet_and_then quiet_select_paths)
     (auto intro!: quiet_and_then quiet_load_dataset quiet_compute_indices quiet_return)

lemma quiet_do_generate_indices:
  "quiet (result (do_generate_indices env (filterwarnings Ignore F) fs),
          effects (do_generate_indices env (filterwarnings Ignore F) fs))"
proof (cases "build_output env (filterwarnings Ignore F) fs")
  case (Pair r es)
  have q: "quiet (r, es)" using quiet_build_output [of env F fs] Pair by simp
  show ?thesis
  proof (cases r)
    case (Inl e)
    then show ?thesis using q Pair by (simp add: do_generate_indices_def quiet_def)
  next
    case (Inr p)
    obtain ds_out file_out where p: "p = (ds_out, file_out)" by (cases p)
    show ?thesis
      using q Pair Inr p quiet_save_dataset [of env F fs ds_out file_out]
      by (simp add: do_generate_indices_def quiet_def Let_def)
  qed
qed

section \<open>Dialogs and glob patterns\<close>

lemma glob_match_separators:
  "glob_match p s \<Longrightarrow> count_list p (CHR ''/'') = count_list s (CHR ''/'')"
  by (induction p s rule: glob_match.induct) (auto split: if_splits)

lemma glob_match_not_inside:
  "\<not> glob_match (fldr @ ''*.nc'') (fldr @ ''/'' @ fname)"
proof
  assume "glob_match (fldr @ ''*.nc'') (fldr @ ''/'' @ fname)"
  from glob_match_separators [OF this] show False by simp
qed

lemma select_paths_cancel:
  assumes "falsy (get_folder_path env ''Select input folder'') \<or>
           falsy (get_save_path env ''Select output file'')"
  shows "select_paths env =
           (Inl (Exception (if falsy (get_folder_path env ''Select input folder'')
                            then ''Folder selection aborted'' else ''Save file selection aborted'')),
            if falsy (get_folder_path env ''Select input folder'')
            then [GetFolderPath ''Select input folder'']
            else [GetFolderPath ''Select input folder'', GetSavePath ''Select output file''])"
  using assms by (auto simp: select_paths_def Let_def)

section \<open>The effects of each stage\<close>

lemma calls_append [simp]: "calls (es @ es') = calls es @ calls es'"
  by (induction es rule: calls.induct) simp_all

lemma opens_append [simp]: "opens (es @ es') = opens es @ opens es'"
  by (induction es rule: opens.induct) simp_all

lemma writes_append [simp]: "writes (es @ es') = writes es @ writes es'"
  by (induction es rule: writes.induct) simp_all

lemma calls_shown [simp]: "calls (map ShowWarning xs) = []"
  by (induction xs) simp_all

lemma opens_shown [simp]: "opens (map ShowWarning xs) = []"
  by (induction xs) simp_all

lemma writes_shown [simp]: "writes (map ShowWarning xs) = []"
  by (induction xs) simp_all

lemma fst_lib_call [simp]: "fst (lib_call rx F r) = lib_result rx F r"
  by (simp add: lib_call_def)

lemma snd_lib_call [simp]: "snd (lib_call rx F r) = map ShowWarning (fst (issue rx F (fst r)))"
  by (simp add: lib_call_def)

lemma fst_logged [simp]: "fst (logged e m) = fst m"
  by (simp add: logged_def)

lemma snd_logged [simp]: "snd (logged e m) = e # snd m"
  by (simp add: logged_def)

lemma fst_exec_call:
  "fst (exec_call env F ds L c) =
     (case eval_args ds L (args c) of
        Inl e \<Rightarrow> Inl e
      | Inr vs \<Rightarrow> lib_result (re_match env) F (xc env (func c) vs (kwargs c)))"
  by (simp add: exec_call_def split: sum.splits)

lemma calls_exec_call:
  "calls (snd (exec_call env F ds L c)) =
     (case eval_args ds L (args c) of Inl e \<Rightarrow> [] | Inr vs \<Rightarrow> [(func c, vs, kwargs c)])"
  by (simp add: exec_call_def split: sum.splits)

lemma opens_exec_call [simp]: "opens (snd (exec_call env F ds L c)) = []"
  by (simp add: exec_call_def split: sum.splits)

lemma writes_exec_call [simp]: "writes (snd (exec_call env F ds L c)) = []"
  by (simp add: exec_call_def split: sum.splits)

lemma snd_exec_stmt:
  "snd (exec_stmt env F ds s (L, out)) = snd (exec_call env F ds L (call_of s))"
  by (cases s) (simp_all add: snd_and_then split: sum.splits)

lemma opens_exec_stmts [simp]: "opens (snd (exec_stmts env F ds ss st)) = []"
proof (induction ss arbitrary: st)
  case (Cons s ss)
  obtain L out where st: "st = (L, out)" by (cases st)
  show ?case using Cons.IH by (simp add: snd_and_then st snd_exec_stmt split: sum.splits)
qed simp

lemma writes_exec_stmts [simp]: "writes (snd (exec_stmts env F ds ss st)) = []"
proof (induction ss arbitrary: st)
  case (Cons s ss)
  obtain L out where st: "st = (L, out)" by (cases st)
  show ?case using Cons.IH by (simp add: snd_and_then st snd_exec_stmt split: sum.splits)
qed simp

lemma fst_exec_stmt_Inr:
  "fst (exec_stmt env F ds s (L, out)) = Inr st' \<Longrightarrow>
     \<exists>vs. eval_args ds L (args (call_of s)) = Inr vs"
  by (cases s) (auto simp: fst_and_then fst_exec_call split: sum.splits)

lemma calls_exec_stmts_prefix:
  "prefix (map (\<lambda>(f, vs, kw). (f, kw)) (calls (snd (exec_stmts env F ds ss st))))
          (map (signature \<circ> call_of) ss)"
proof (induction ss arbitrary: st)
  case (Cons s ss)
  obtain L out where st: "st = (L, out)" by (cases st)
  show ?case
  proof (cases "fst (exec_stmt env F ds s st)")
    case (Inl e)
    then show ?thesis
      by (auto simp: snd_and_then st snd_exec_stmt calls_exec_call signature_def split: sum.splits)
  next
    case (Inr st')
    then obtain vs where "eval_args ds L (args (call_of s)) = Inr vs"
      using fst_exec_stmt_Inr st by blast
    then show ?thesis
      using Inr Cons.IH [of st']
      by (simp add: snd_and_then st snd_exec_stmt calls_exec_call signature_def)
  qed
qed simp

lemma calls_exec_stmts_success:
  "fst (exec_stmts env F ds ss st) = Inr st' \<Longrightarrow>
     map (\<lambda>(f, vs, kw). (f, kw)) (calls (snd (exec_stmts env F ds ss st)))
       = map (signature \<circ> call_of) ss"
proof (induction ss arbitrary: st)
  case (Cons s ss)
  obtain L out where st: "st = (L, out)" by (cases st)
  from Cons.prems obtain st1 where
    s1: "fst (exec_stmt env F ds s st) = Inr st1" and
    s2: "fst (exec_stmts env F ds ss st1) = Inr st'"
    by (auto simp: fst_and_then split: sum.splits)
  from s1 obtain vs where "eval_args ds L (args (call_of s)) = Inr vs"
    using fst_exec_stmt_Inr st by blast
  then show ?case
    using s1 Cons.IH [OF s2]
    by (simp add: snd_and_then st snd_exec_stmt calls_exec_call signature_def)
qed simp

lemma opens_load_dataset [simp]: "opens (snd (load_dataset env F fs p)) = [(p, ''netcdf4'')]"
  by (simp add: load_dataset_def snd_and_then split: sum.splits)

lemma calls_load_dataset [simp]: "calls (snd (load_dataset env F fs p)) = []"
  by (simp add: load_dataset_def snd_and_then split: sum.splits)

lemma writes_load_dataset [simp]: "writes (snd (load_dataset env F fs p)) = []"
  by (simp add: load_dataset_def snd_and_then split: sum.splits)

lemma opens_compute_indices [simp]: "opens (snd (compute_indices env F ds)) = []"
  by (simp add: compute_indices_def snd_and_then split: sum.splits)

lemma writes_compute_indices [simp]: "writes (snd (compute_indices env F ds)) = []"
  by (simp add: compute_indices_def snd_and_then split: sum.splits)

lemma calls_compute_indices:
  "calls (snd (compute_indices env F ds))
     = calls (snd (exec_stmts env F ds indicator_stmts (Map.empty, Dataset (attrs ds) Map.empty)))"
  by (simp add: compute_indices_def snd_and_then split: sum.splits)

lemma fst_compute_indices:
  "fst (compute_indices env F ds) = Inr ds_out \<longleftrightarrow>
     (\<exists>L. fst (exec_stmts env F ds indicator_stmts (Map.empty, Dataset (attrs ds) Map.empty))
             = Inr (L, ds_out))"
  by (auto simp: compute_indices_def fst_and_then split: sum.splits)

lemma effects_save_dataset:
  "opens (effects (save_dataset env F fs ds_out file_out)) = []"
  "calls (effects (save_dataset env F fs ds_out file_out)) = []"
  "writes (effects (save_dataset env F fs ds_out file_out)) =
     (case lib_result (re_match env) F (get_to_netcdf_encodings env ds_out 4) of
        Inl e \<Rightarrow> []
      | Inr enc \<Rightarrow> [(ds_out, file_out, ''netcdf4'', enc)])"
  by (simp_all add: save_dataset_def logged_def lib_call_def split: sum.splits prod.splits)

lemma select_paths_ok:
  "\<not> falsy (get_folder_path env ''Select input folder'') \<Longrightarrow>
   \<not> falsy (get_save_path env ''Select output file'') \<Longrightarrow>
   select_paths env =
     (Inr (the (get_folder_path env ''Select input folder'') @ ''*.nc'',
           the (get_save_path env ''Select output file'')),
      [GetFolderPath ''Select input folder'', GetSavePath ''Select output file''])"
  by (simp add: select_paths_def Let_def)

lemma opens_build_output:
  "opens (snd (build_output env F fs)) =
     (if falsy (get_folder_path env ''Select input folder'') \<or>
         falsy (get_save_path env ''Select output file'') then []
      else [(the (get_folder_path env ''Select input folder'') @ ''*.nc'', ''netcdf4'')])"
proof (cases "falsy (get_folder_path env ''Select input folder'') \<or>
              falsy (get_save_path env ''Select output file'')")
  case True
  then show ?thesis by (simp add: build_output_def select_paths_cancel)
next
  case False
  then show ?thesis
    by (simp add: build_output_def select_paths_ok snd_and_then split: sum.splits)
qed

lemma effects_do_generate_indices:
  "opens (effects (do_generate_indices env F fs)) = opens (snd (build_output env F fs))"
  "calls (effects (do_generate_indices env F fs)) = calls (snd (build_output env F fs))"
  by (simp_all add: do_generate_indices_def effects_save_dataset Let_def
        split: prod.splits sum.splits)

lemma fst_build_output:
  "fst (build_output env F fs) = Inr (ds_out, file_out) \<longleftrightarrow>
     \<not> falsy (get_folder_path env ''Select input folder'') \<and>
     \<not> falsy (get_save_path env ''Select output file'') \<and>
     file_out = the (get_save_path env ''Select output file'') \<and>
     (\<exists>ds. fst (load_dataset env F fs
                  (the (get_folder_path env ''Select input folder'') @ ''*.nc'')) = Inr ds \<and>
           fst (compute_indices env F ds) = Inr ds_out)"
proof (cases "falsy (get_folder_path env ''Select input folder'') \<or>
              falsy (get_save_path env ''Select output file'')")
  case True
  then show ?thesis by (auto simp: build_output_def select_paths_cancel)
next
  case False
  then show ?thesis
    by (auto simp: build_output_def select_paths_ok fst_and_then split: sum.splits)
qed

lemma calls_build_output:
  "fst (build_output env F fs) = Inr (ds_out, file_out) \<Longrightarrow>
   fst (load_dataset env F fs (the (get_folder_path env ''Select input folder'') @ ''*.nc'')) = Inr ds \<Longrightarrow>
   calls (snd (build_output env F fs)) = calls (snd (compute_indices env F ds))"
  by (cases "falsy (get_folder_path env ''Select input folder'') \<or>
              falsy (get_save_path env ''Select output file'')")
     (auto simp: build_output_def select_paths_cancel select_paths_ok snd_and_then fst_and_then
           split: sum.splits)

lemma writes_do_generate_indices:
  "writes (effects (do_generate_indices env F fs)) =
     (case fst (build_output env F fs) of
        Inl e \<Rightarrow> []
      | Inr (ds_out, file_out) \<Rightarrow>
          (case lib_result (re_match env) F (get_to_netcdf_encodings env ds_out 4) of
             Inl e \<Rightarrow> []
           | Inr enc \<Rightarrow> [(ds_out, file_out, ''netcdf4'', enc)]))"
proof (cases "falsy (get_folder_path env ''Select input folder'') \<or>
              falsy (get_save_path env ''Select output file'')")
  case True
  then show ?thesis
    by (simp add: do_generate_indices_def build_output_def select_paths_cancel)
next
  case False
  have w: "writes (snd (build_output env F fs)) = []"
    using False by (simp add: build_output_def select_paths_ok snd_and_then split: sum.splits)
  show ?thesis
    using w by (cases "build_output env F fs")
      (auto simp: do_generate_indices_def effects_save_dataset Let_def split: sum.splits)
qed

lemma glob_match_star:
  "CHR ''/'' \<notin> set s \<Longrightarrow> glob_match ps t \<Longrightarrow> glob_match (CHR ''*'' # ps) (s @ t)"
proof (induction s)
  case Nil
  then show ?case by (cases t) simp_all
next
  case (Cons c s)
  then show ?case by auto
qed

lemma glob_match_same_prefix: "glob_match p s \<Longrightarrow> glob_match (q @ p) (q @ s)"
proof (induction q)
  case Nil
  then show ?case by simp
next
  case (Cons c q)
  show ?case
  proof (cases "c = CHR ''*''")
    case True
    have "glob_match (CHR ''*'' # q @ p) (q @ s)"
      using Cons.IH [OF Cons.prems] by (cases "q @ s") simp_all
    then show ?thesis using True by simp
  next
    case False
    then show ?thesis using Cons.IH [OF Cons.prems] by simp
  qed
qed

lemma glob_match_trailing_separator:
  "CHR ''/'' \<notin> set fname \<Longrightarrow> glob_match (fldr @ ''*.nc'') (fldr @ fname @ ''.nc'')"
proof -
  assume "CHR ''/'' \<notin> set fname"
  then have "glob_match (CHR ''*'' # ''.nc'') (fname @ ''.nc'')"
    by (rule glob_match_star) simp
  then show ?thesis by (rule glob_match_same_prefix)
qed

lemma result_do_generate_indices:
  "result (do_generate_indices env F fs) = Inr u \<Longrightarrow>
     \<exists>ds_out file_out. fst (build_output env F fs) = Inr (ds_out, file_out)"
  by (cases "build_output env F fs")
     (auto simp: do_generate_indices_def split: sum.splits)

lemma calls_build_output_prefix:
  "prefix (map (\<lambda>(f, vs, kw). (f, kw)) (calls (snd (build_output env F fs))))
          (map (signature \<circ> call_of) indicator_stmts)"
proof (cases "falsy (get_folder_path env ''Select input folder'') \<or>
              falsy (get_save_path env ''Select output file'')")
  case True
  then show ?thesis by (simp add: build_output_def select_paths_cancel)
next
  case False
  let ?p = "the (get_folder_path env ''Select input folder'') @ ''*.nc''"
  show ?thesis
  proof (cases "fst (load_dataset env F fs ?p)")
    case (Inl e)
    then show ?thesis
      using False by (simp add: build_output_def select_paths_ok snd_and_then)
  next
    case (Inr ds)
    have "calls (snd (build_output env F fs)) = calls (snd (compute_indices env F ds))"
      using False Inr
      by (simp add: build_output_def select_paths_ok snd_and_then split: sum.splits)
    then show ?thesis
      by (simp add: calls_compute_indices calls_exec_stmts_prefix)
  qed
qed

lemma calls_build_output_success:
  assumes "fst (build_output env F fs) = Inr (ds_out, file_out)"
  shows "map (\<lambda>(f, vs, kw). (f, kw)) (calls (snd (build_output env F fs)))
           = map (signature \<circ> call_of) indicator_stmts"
proof -
  from assms obtain ds L where
    ld: "fst (load_dataset env F fs (the (get_folder_path env ''Select input folder'') @ ''*.nc'')) = Inr ds" and
    ex: "fst (exec_stmts env F ds indicator_stmts (Map.empty, Dataset (attrs ds) Map.empty)) = Inr (L, ds_out)"
    by (auto simp: fst_build_output fst_compute_indices)
  show ?thesis
    using calls_build_output [OF assms ld] calls_exec_stmts_success [OF ex]
    by (simp add: calls_compute_indices)
qed

lemma signatures:
  "map (signature \<circ> call_of) indicator_stmts =
    [(''atmos.wetdays'', [(''thresh'', Str ''1 mm/day''), (''freq'', Str ''YS'')]),
     (''atmos.maximum_consecutive_dry_days'', [(''thresh'', Str ''1 mm/day''), (''freq'', Str ''YS'')]),
     (''atmos.maximum_consecutive_wet_days'', [(''thresh'', Str ''1 mm/day''), (''freq'', Str ''YS'')]),
     (''atmos.precip_accumulation'', [(''freq'', Str ''YS'')]),
     (''atmos.daily_pr_intensity'', [(''thresh'', Str ''1 mm/day''), (''freq'', Str ''YS'')]),
     (''atmos.max_1day_precipitation_amount'', [(''freq'', Str ''YS'')]),
     (''atmos.max_n_day_precipitation_amount'', [(''window'', Num 5), (''freq'', Str ''YS'')]),
     (''atmos.tx_max'', [(''freq'', Str ''YS'')]),
     (''atmos.tn_max'', [(''freq'', Str ''YS'')]),
     (''atmos.tx_min'', [(''freq'', Str ''YS'')]),
     (''atmos.tn_min'', [(''freq'', Str ''YS'')]),
     (''atmos.frost_days'', [(''freq'', Str ''YS'')]),
     (''atmos.ice_days'', [(''freq'', Str ''YS'')]),
     (''atmos.tx_days_above'', [(''thresh'', Str ''25 degC''), (''freq'', Str ''YS'')]),
     (''atmos.tropical_nights'', [(''thresh'', Str ''20 degC''), (''freq'', Str ''YS'')]),
     (''indices.tas'', []),
     (''core.calendar.percentile_doy'', [(''per'', Num 10)]),
     (''core.calendar.percentile_doy'', [(''per'', Num 90)]),
     (''core.calendar.percentile_doy'', [(''per'', Num 10)]),
     (''atmos.tx10p'', [(''freq'', Str ''YS'')]),
     (''atmos.tx90p'', [(''freq'', Str ''YS'')]),
     (''atmos.tn10p'', [(''freq'', Str ''YS'')]),
     (''atmos.tn90p'', [(''freq'', Str ''YS'')]),
     (''atmos.cold_spell_duration_index'', [(''window'', Num 1), (''freq'', Str ''YS'')])]"
  by (simp add: indicator_stmts_def signature_def)

section \<open>The concrete run, evaluated\<close>

lemma demo_lib_result:
  "lib_result (re_match demo_env) [] (xc demo_env f vs kw) = Inr (demo_result f vs kw)"
  "lib_result (re_match demo_env) (filterwarnings Ignore F) (xc demo_env f vs kw)
     = Inr (demo_result f vs kw)"
  by (simp_all add: demo_env_def lib_result_def demo_result_def action_for_ignore_all)

lemma demo_eval:
  "data_vars demo_ds ''pr'' = Some (demo_var ''pr'')"
  "data_vars demo_ds ''tasmax'' = Some (demo_var ''tasmax'')"
  "data_vars demo_ds ''tasmin'' = Some (demo_var ''tasmin'')"
  "demo_locals ''tas'' = Some demo_tas"
  "demo_locals ''t10'' = Some demo_t10"
  "demo_locals ''t90'' = Some demo_t90"
  "demo_locals ''tn10'' = Some demo_tn10"
  by (simp_all add: demo_ds_def demo_var_def demo_locals_def)

lemma dom_demo_locals: "dom demo_locals = set (targets indicator_stmts)"
  by (auto simp: demo_locals_def indicator_stmts_def)

lemma demo_exec_general:
  assumes lib: "\<And>f vs kw. lib_result (re_match demo_env) F (xc demo_env f vs kw)
                  = Inr (demo_result f vs kw)"
  shows "fst (exec_stmts demo_env F demo_ds indicator_stmts
                (Map.empty, Dataset (attrs demo_ds) Map.empty))
           = Inr (demo_locals, demo_out)"
proof -
  have cons: "\<forall>s \<in> set indicator_stmts. consistent demo_env F demo_ds demo_locals s"
    by (simp add: indicator_stmts_def consistent_def fst_exec_call demo_eval lib
          demo_tas_def demo_t10_def demo_t90_def demo_tn10_def)
  have ins: "concat (map (inserted_by demo_env F demo_ds demo_locals) indicator_stmts)
               = demo_indices"
    by (simp add: indicator_stmts_def fst_exec_call demo_eval lib demo_indices_def
          demo_result_def)
  have d0: "dom (Map.empty :: prov locals) = set []" by simp
  have le0: "Map.empty \<subseteq>\<^sub>m demo_locals" by simp
  from exec_stmts_backward [OF well_formed_indicator_stmts d0 le0 cons,
      of "Dataset (attrs demo_ds) Map.empty"]
  obtain L' where L':
    "fst (exec_stmts demo_env F demo_ds indicator_stmts (Map.empty, Dataset (attrs demo_ds) Map.empty))
       = Inr (L', attach (Dataset (attrs demo_ds) Map.empty)
                    (concat (map (inserted_by demo_env F demo_ds demo_locals) indicator_stmts)))"
    "L' \<subseteq>\<^sub>m demo_locals" "dom L' = set [] \<union> set (targets indicator_stmts)"
    by blast
  have "L' = demo_locals"
    using L'(2,3) dom_demo_locals by (intro map_le_same_dom) simp_all
  moreover have "attrs demo_ds = [''title'' \<mapsto> ''demo'']"
    by (simp add: demo_ds_def)
  ultimately show ?thesis
    using L'(1) by (simp add: ins demo_out_def)
qed

lemma calls_concat: "calls (concat ess) = concat (map calls ess)"
  by (induction ess) simp_all

lemma demo_calls_general:
  assumes lib: "\<And>f vs kw. lib_result (re_match demo_env) F (xc demo_env f vs kw)
                  = Inr (demo_result f vs kw)"
  shows "calls (snd (exec_stmts demo_env F demo_ds indicator_stmts
                (Map.empty, Dataset (attrs demo_ds) Map.empty))) = demo_calls"
proof -
  obtain es where ex: "exec_stmts demo_env F demo_ds indicator_stmts
      (Map.empty, Dataset (attrs demo_ds) Map.empty) = (Inr (demo_locals, demo_out), es)"
    using demo_exec_general [OF lib]
    by (cases "exec_stmts demo_env F demo_ds indicator_stmts
                 (Map.empty, Dataset (attrs demo_ds) Map.empty)") simp
  have d0: "dom (Map.empty :: prov locals) = set []" by simp
  from exec_stmts_forward [OF well_formed_indicator_stmts d0 ex]
  have "es = concat (map (\<lambda>s. snd (exec_call demo_env F demo_ds demo_locals (call_of s)))
                       indicator_stmts)"
    by blast
  then have "calls es = concat (map (\<lambda>s. calls (snd (exec_call demo_env F demo_ds demo_locals (call_of s))))
                       indicator_stmts)"
    by (simp add: calls_concat comp_def)
  also have "\<dots> = demo_calls"
    by (simp add: indicator_stmts_def calls_exec_call demo_eval demo_calls_def)
  finally show ?thesis using ex by simp
qed

lemma demo_load:
  "fst (load_dataset demo_env [] fs p) = Inr demo_ds"
  "fst (load_dataset demo_env (filterwarnings Ignore F) fs p) = Inr demo_ds"
  by (simp_all add: load_dataset_def fst_and_then demo_env_def lib_result_def)

lemma demo_dialogs:
  "get_folder_path demo_env t = Some ''/data/cmip''"
  "get_save_path demo_env t = Some ''/out/indices.nc''"
  by (simp_all add: demo_env_def)

lemma demo_build_output:
  "fst (build_output demo_env [] fs) = Inr (demo_out, ''/out/indices.nc'')"
  "fst (build_output demo_env (filterwarnings Ignore F) fs) = Inr (demo_out, ''/out/indices.nc'')"
  by (simp_all add: fst_build_output demo_dialogs falsy_def demo_load fst_compute_indices
        demo_exec_general demo_lib_result)

lemma demo_encodings:
  "lib_result (re_match demo_env) [] (get_to_netcdf_encodings demo_env ds 4) = Inr 4"
  "lib_result (re_match demo_env) (filterwarnings Ignore F) (get_to_netcdf_encodings demo_env ds 4) = Inr 4"
  by (simp_all add: demo_env_def lib_result_def)

lemma demo_writes:
  "writes (effects (do_generate_indices demo_env [] fs))
     = [(demo_out, ''/out/indices.nc'', ''netcdf4'', 4)]"
  by (simp add: writes_do_generate_indices demo_build_output demo_encodings)

lemma demo_calls:
  "calls (effects (do_generate_indices demo_env [] fs)) = demo_calls"
  using calls_build_output [OF demo_build_output(1) demo_load(1)]
  by (simp add: effects_do_generate_indices calls_compute_indices demo_calls_general demo_lib_result)

lemma result_do_generate_indices_eq:
  "result (do_generate_indices env F fs) =
     (case fst (build_output env F fs) of
        Inl e \<Rightarrow> Inl e
      | Inr (ds_out, file_out) \<Rightarrow> result (save_dataset env F fs ds_out file_out))"
  by (cases "build_output env F fs")
     (simp add: do_generate_indices_def Let_def split: sum.splits prod.splits)

lemma demo_save:
  "result (save_dataset demo_env [] fs ds_out file_out) = Inr ()"
  "result (save_dataset demo_env (filterwarnings Ignore F) fs ds_out file_out) = Inr ()"
  "files (save_dataset demo_env [] fs ds_out file_out) = (file_out, ds_out) # fs"
  by (simp_all add: save_dataset_def logged_def lib_call_def lib_result_def demo_env_def)

lemma demo_result:
  "result (do_generate_indices demo_env [] fs) = Inr ()"
  "result (do_generate_indices demo_env (filterwarnings Ignore F) fs) = Inr ()"
  by (simp_all add: result_do_generate_indices_eq demo_build_output demo_save)

section \<open>Names, attributes and the trace of a run\<close>

lemma exec_stmts_attrs:
  "fst (exec_stmts env F ds ss (L, out)) = Inr (L', out') \<Longrightarrow> attrs out' = attrs out"
proof (induction ss arbitrary: L out)
  case Nil
  then show ?case by simp
next
  case (Cons s ss)
  from Cons.prems obtain L1 out1 where
    s1: "fst (exec_stmt env F ds s (L, out)) = Inr (L1, out1)" and
    s2: "fst (exec_stmts env F ds ss (L1, out1)) = Inr (L', out')"
    by (auto simp: fst_and_then split: sum.splits)
  have "attrs out1 = attrs out"
    using s1 by (cases s) (auto simp: fst_and_then setitem_def split: sum.splits)
  then show ?case using Cons.IH [OF s2] by simp
qed

lemma set_insert_funcs: "set (insert_funcs ss) = {func c |c. Insert c \<in> set ss}"
  by (induction ss rule: insert_funcs.induct) auto

lemma set_assign_funcs: "set (assign_funcs ss) = {func c |x c. Assign x c \<in> set ss}"
  by (induction ss rule: assign_funcs.induct) auto

lemma set_inserted:
  "set (concat (map (inserted_by env F ds L) ss)) =
     {(name da, da) |c da. Insert c \<in> set ss \<and> fst (exec_call env F ds L c) = Inr da}"
proof (induction ss)
  case Nil
  show ?case by simp
next
  case (Cons s ss)
  show ?case
  proof (cases s)
    case (Assign x c)
    then show ?thesis using Cons.IH by auto
  next
    case (Insert c)
    then show ?thesis using Cons.IH by (auto split: sum.splits)
  qed
qed

lemma set_calls_concat:
  "set (calls (concat (map (\<lambda>s. snd (exec_call env F ds L (call_of s))) ss))) =
     {(func (call_of s), vs, kwargs (call_of s)) |s vs.
        s \<in> set ss \<and> eval_args ds L (args (call_of s)) = Inr vs}"
  by (induction ss) (auto simp: calls_exec_call split: sum.splits)

lemma names_of_inserted:
  assumes cons: "\<forall>s \<in> set ss. consistent env F ds L s"
      and disj: "set (assign_funcs ss) \<inter> set (insert_funcs ss) = {}"
  shows "fst ` set (concat (map (inserted_by env F ds L) ss)) =
           {name da |f vs kw da.
              (f, vs, kw) \<in> set (calls (concat (map (\<lambda>s. snd (exec_call env F ds L (call_of s))) ss))) \<and>
              f \<in> set (insert_funcs ss) \<and>
              lib_result (re_match env) F (xc env f vs kw) = Inr da}"
    (is "?lhs = ?rhs")
proof (rule set_eqI, rule iffI)
  fix n assume "n \<in> ?lhs"
  then obtain da0 where "(n, da0) \<in> set (concat (map (inserted_by env F ds L) ss))"
    by (force simp del: set_concat)
  then obtain c da where c: "Insert c \<in> set ss" and
    r: "fst (exec_call env F ds L c) = Inr da" and n: "n = name da"
    unfolding set_inserted by blast
  from r obtain vs where vs: "eval_args ds L (args c) = Inr vs"
    and lr: "lib_result (re_match env) F (xc env (func c) vs (kwargs c)) = Inr da"
    by (auto simp: fst_exec_call split: sum.splits)
  have "(func c, vs, kwargs c) \<in> set (calls (concat (map (\<lambda>s. snd (exec_call env F ds L (call_of s))) ss)))"
    unfolding set_calls_concat using c vs by force
  moreover have "func c \<in> set (insert_funcs ss)"
    using c by (auto simp: set_insert_funcs)
  ultimately show "n \<in> ?rhs" using lr n by blast
next
  fix n assume "n \<in> ?rhs"
  then obtain f vs kw da where
    m: "(f, vs, kw) \<in> set (calls (concat (map (\<lambda>s. snd (exec_call env F ds L (call_of s))) ss)))" and
    fi: "f \<in> set (insert_funcs ss)" and
    lr: "lib_result (re_match env) F (xc env f vs kw) = Inr da" and n: "n = name da"
    by blast
  from m obtain s where s: "s \<in> set ss" and f: "f = func (call_of s)"
    and kw: "kw = kwargs (call_of s)" and vs: "eval_args ds L (args (call_of s)) = Inr vs"
    unfolding set_calls_concat by blast
  have "\<exists>c. s = Insert c"
  proof (cases s)
    case (Assign x c)
    then have "f \<in> set (assign_funcs ss)" using s f by (auto simp: set_assign_funcs)
    then show ?thesis using fi disj by blast
  qed simp
  then obtain c where c: "s = Insert c" by blast
  have "fst (exec_call env F ds L c) = Inr da"
    using vs lr f kw c by (simp add: fst_exec_call)
  then have "(name da, da) \<in> set (concat (map (inserted_by env F ds L) ss))"
    unfolding set_inserted using s c by blast
  then show "n \<in> ?lhs" using n by (force simp del: set_concat)
qed

lemma funcs_disjoint:
  "set (assign_funcs indicator_stmts) \<inter> set (insert_funcs indicator_stmts) = {}"
  by (simp add: indicator_stmts_def)

lemma insert_funcs_indicator_stmts:
  "insert_funcs indicator_stmts =
     [''atmos.wetdays'', ''atmos.maximum_consecutive_dry_days'',
      ''atmos.maximum_consecutive_wet_days'', ''atmos.precip_accumulation'',
      ''atmos.daily_pr_intensity'', ''atmos.max_1day_precipitation_amount'',
      ''atmos.max_n_day_precipitation_amount'', ''atmos.tx_max'', ''atmos.tn_max'',
      ''atmos.tx_min'', ''atmos.tn_min'', ''atmos.frost_days'', ''atmos.ice_days'',
      ''atmos.tx_days_above'', ''atmos.tropical_nights'', ''atmos.tx10p'', ''atmos.tx90p'',
      ''atmos.tn10p'', ''atmos.tn90p'', ''atmos.cold_spell_duration_index'']"
  by (simp add: indicator_stmts_def)

lemma written_dataset:
  assumes "(ds_out, path, engine, enc) \<in> set (writes (effects (do_generate_indices env F fs)))"
  obtains ds L es where
    "fst (load_dataset env F fs (the (get_folder_path env ''Select input folder'') @ ''*.nc'')) = Inr ds"
    "exec_stmts env F ds indicator_stmts (Map.empty, Dataset (attrs ds) Map.empty)
       = (Inr (L, ds_out), es)"
    "calls (effects (do_generate_indices env F fs)) = calls es"
proof -
  from assms have b: "fst (build_output env F fs) = Inr (ds_out, path)"
    by (auto simp: writes_do_generate_indices split: sum.splits)
  then obtain ds L where
    ld: "fst (load_dataset env F fs (the (get_folder_path env ''Select input folder'') @ ''*.nc'')) = Inr ds" and
    ex: "fst (exec_stmts env F ds indicator_stmts (Map.empty, Dataset (attrs ds) Map.empty)) = Inr (L, ds_out)"
    by (auto simp: fst_build_output fst_compute_indices)
  obtain es where es: "exec_stmts env F ds indicator_stmts (Map.empty, Dataset (attrs ds) Map.empty)
       = (Inr (L, ds_out), es)"
    using ex by (cases "exec_stmts env F ds indicator_stmts (Map.empty, Dataset (attrs ds) Map.empty)") simp
  have "calls (effects (do_generate_indices env F fs)) = calls es"
    using calls_build_output [OF b ld] es
    by (simp add: effects_do_generate_indices calls_compute_indices)
  with ld es show ?thesis by (rule that)
qed

lemma map_fst_filter_calls:
  "map fst (filter (\<lambda>(f, vs, kw). P f) cs) = filter P (map fst cs)"
  by (induction cs) auto

lemma map_fst_signatures:
  "map (\<lambda>(f, vs, kw). (f, kw)) cs = map (signature \<circ> call_of) ss \<Longrightarrow>
     map fst cs = map (func \<circ> call_of) ss"
proof -
  assume "map (\<lambda>(f, vs, kw). (f, kw)) cs = map (signature \<circ> call_of) ss"
  then have "map fst (map (\<lambda>(f, vs, kw). (f, kw)) cs) = map fst (map (signature \<circ> call_of) ss)"
    by simp
  then show ?thesis by (simp add: comp_def signature_def case_prod_unfold)
qed

lemma indicator_calls_in_order:
  "filter (\<lambda>f. f \<in> set (insert_funcs indicator_stmts)) (map (func \<circ> call_of) indicator_stmts)
     = insert_funcs indicator_stmts"
  by (simp add: indicator_stmts_def)

lemma consistent_Assign:
  "consistent env F ds L (Assign x c) \<longleftrightarrow>
     (\<exists>vs da. eval_args ds L (args c) = Inr vs \<and>
        lib_result (re_match env) F (xc env (func c) vs (kwargs c)) = Inr da \<and> L x = Some da)"
  by (auto simp: consistent_def fst_exec_call split: sum.splits)

lemma consistent_Insert:
  "consistent env F ds L (Insert c) \<longleftrightarrow>
     (\<exists>vs da. eval_args ds L (args c) = Inr vs \<and>
        lib_result (re_match env) F (xc env (func c) vs (kwargs c)) = Inr da)"
  by (auto simp: consistent_def fst_exec_call split: sum.splits)

lemma eval_args_shapes:
  "eval_args ds L [DsVar a] = Inr vs \<longleftrightarrow> (\<exists>u. data_vars ds a = Some u \<and> vs = [u])"
  "eval_args ds L [Local b] = Inr vs \<longleftrightarrow> (\<exists>v. L b = Some v \<and> vs = [v])"
  "eval_args ds L [DsVar a, DsVar a'] = Inr vs \<longleftrightarrow>
     (\<exists>u u'. data_vars ds a = Some u \<and> data_vars ds a' = Some u' \<and> vs = [u, u'])"
  "eval_args ds L [DsVar a, Local b] = Inr vs \<longleftrightarrow>
     (\<exists>u v. data_vars ds a = Some u \<and> L b = Some v \<and> vs = [u, v])"
  by (auto split: option.splits)

lemma run_trace:
  assumes ex: "exec_stmts env F ds indicator_stmts (Map.empty, out0) = (Inr (L, out), es)"
  obtains pr tasmax tasmin tas t10 t90 tn10 where
    "data_vars ds ''pr'' = Some pr" "data_vars ds ''tasmax'' = Some tasmax"
    "data_vars ds ''tasmin'' = Some tasmin"
    "L ''tas'' = Some tas" "L ''t10'' = Some t10" "L ''t90'' = Some t90" "L ''tn10'' = Some tn10"
    "lib_result (re_match env) F (xc env ''indices.tas'' [tasmin, tasmax] []) = Inr tas"
    "lib_result (re_match env) F (xc env ''core.calendar.percentile_doy'' [tas] [(''per'', Num 10)]) = Inr t10"
    "lib_result (re_match env) F (xc env ''core.calendar.percentile_doy'' [tas] [(''per'', Num 90)]) = Inr t90"
    "lib_result (re_match env) F (xc env ''core.calendar.percentile_doy'' [tasmin] [(''per'', Num 10)]) = Inr tn10"
    "calls es =
      [(''atmos.wetdays'', [pr], [(''thresh'', Str ''1 mm/day''), (''freq'', Str ''YS'')]),
       (''atmos.maximum_consecutive_dry_days'', [pr], [(''thresh'', Str ''1 mm/day''), (''freq'', Str ''YS'')]),
       (''atmos.maximum_consecutive_wet_days'', [pr], [(''thresh'', Str ''1 mm/day''), (''freq'', Str ''YS'')]),
       (''atmos.precip_accumulation'', [pr], [(''freq'', Str ''YS'')]),
       (''atmos.daily_pr_intensity'', [pr], [(''thresh'', Str ''1 mm/day''), (''freq'', Str ''YS'')]),
       (''atmos.max_1day_precipitation_amount'', [pr], [(''freq'', Str ''YS'')]),
       (''atmos.max_n_day_precipitation_amount'', [pr], [(''window'', Num 5), (''freq'', Str ''YS'')]),
       (''atmos.tx_max'', [tasmax], [(''freq'', Str ''YS'')]),
       (''atmos.tn_max'', [tasmin], [(''freq'', Str ''YS'')]),
       (''atmos.tx_min'', [tasmax], [(''freq'', Str ''YS'')]),
       (''atmos.tn_min'', [tasmin], [(''freq'', Str ''YS'')]),
       (''atmos.frost_days'', [tasmin], [(''freq'', Str ''YS'')]),
       (''atmos.ice_days'', [tasmax], [(''freq'', Str ''YS'')]),
       (''atmos.tx_days_above'', [tasmax], [(''thresh'', Str ''25 degC''), (''freq'', Str ''YS'')]),
       (''atmos.tropical_nights'', [tasmin], [(''thresh'', Str ''20 degC''), (''freq'', Str ''YS'')]),
       (''indices.tas'', [tasmin, tasmax], []),
       (''core.calendar.percentile_doy'', [tas], [(''per'', Num 10)]),
       (''core.calendar.percentile_doy'', [tas], [(''per'', Num 90)]),
       (''core.calendar.percentile_doy'', [tasmin], [(''per'', Num 10)]),
       (''atmos.tx10p'', [tasmax, t10], [(''freq'', Str ''YS'')]),
       (''atmos.tx90p'', [tasmax, t90], [(''freq'', Str ''YS'')]),
       (''atmos.tn10p'', [tasmin, t10], [(''freq'', Str ''YS'')]),
       (''atmos.tn90p'', [tasmin, t90], [(''freq'', Str ''YS'')]),
       (''atmos.cold_spell_duration_index'', [tasmin, tn10], [(''window'', Num 1), (''freq'', Str ''YS'')])]"
proof -
  have d0: "dom (Map.empty :: 'a locals) = set []" by simp
  note fw = exec_stmts_forward [OF well_formed_indicator_stmts d0 ex]
  have cons: "\<forall>s \<in> set indicator_stmts. consistent env F ds L s" using fw by blast
  have es: "es = concat (map (\<lambda>s. snd (exec_call env F ds L (call_of s))) indicator_stmts)"
    using fw by blast
  have "Insert (Call ''atmos.wetdays'' [DsVar ''pr''] [(''thresh'', Str ''1 mm/day''), (''freq'', Str ''YS'')])
          \<in> set indicator_stmts"
    by (simp add: indicator_stmts_def)
  with cons have "consistent env F ds L
      (Insert (Call ''atmos.wetdays'' [DsVar ''pr''] [(''thresh'', Str ''1 mm/day''), (''freq'', Str ''YS'')]))"
    by blast
  then obtain pr where pr: "data_vars ds ''pr'' = Some pr"
    by (auto simp: consistent_Insert eval_args_shapes simp del: eval_args.simps)
  have "Assign ''tas'' (Call ''indices.tas'' [DsVar ''tasmin'', DsVar ''tasmax''] []) \<in> set indicator_stmts"
    by (simp add: indicator_stmts_def)
  with cons have "consistent env F ds L
      (Assign ''tas'' (Call ''indices.tas'' [DsVar ''tasmin'', DsVar ''tasmax''] []))"
    by blast
  then obtain tasmin tasmax tas where
    v: "data_vars ds ''tasmin'' = Some tasmin" "data_vars ds ''tasmax'' = Some tasmax" and
    tas: "L ''tas'' = Some tas"
      "lib_result (re_match env) F (xc env ''indices.tas'' [tasmin, tasmax] []) = Inr tas"
    by (auto simp: consistent_Assign eval_args_shapes simp del: eval_args.simps)
  have "Assign ''t10'' (Call ''core.calendar.percentile_doy'' [Local ''tas''] [(''per'', Num 10)])
          \<in> set indicator_stmts"
    by (simp add: indicator_stmts_def)
  with cons have "consistent env F ds L
      (Assign ''t10'' (Call ''core.calendar.percentile_doy'' [Local ''tas''] [(''per'', Num 10)]))"
    by blast
  then obtain t10 where t10: "L ''t10'' = Some t10"
      "lib_result (re_match env) F (xc env ''core.calendar.percentile_doy'' [tas] [(''per'', Num 10)]) = Inr t10"
    using tas(1) by (auto simp: consistent_Assign eval_args_shapes simp del: eval_args.simps)
  have "Assign ''t90'' (Call ''core.calendar.percentile_doy'' [Local ''tas''] [(''per'', Num 90)])
          \<in> set indicator_stmts"
    by (simp add: indicator_stmts_def)
  with cons have "consistent env F ds L
      (Assign ''t90'' (Call ''core.calendar.percentile_doy'' [Local ''tas''] [(''per'', Num 90)]))"
    by blast
  then obtain t90 where t90: "L ''t90'' = Some t90"
      "lib_result (re_match env) F (xc env ''core.calendar.percentile_doy'' [tas] [(''per'', Num 90)]) = Inr t90"
    using tas(1) by (auto simp: consistent_Assign eval_args_shapes simp del: eval_args.simps)
  have "Assign ''tn10'' (Call ''core.calendar.percentile_doy'' [DsVar ''tasmin''] [(''per'', Num 10)])
          \<in> set indicator_stmts"
    by (simp add: indicator_stmts_def)
  with cons have "consistent env F ds L
      (Assign ''tn10'' (Call ''core.calendar.percentile_doy'' [DsVar ''tasmin''] [(''per'', Num 10)]))"
    by blast
  then obtain tn10 where tn10: "L ''tn10'' = Some tn10"
      "lib_result (re_match env) F (xc env ''core.calendar.percentile_doy'' [tasmin] [(''per'', Num 10)]) = Inr tn10"
    using v(1) by (auto simp: consistent_Assign eval_args_shapes simp del: eval_args.simps)
  have "calls es = concat (map (\<lambda>s. calls (snd (exec_call env F ds L (call_of s)))) indicator_stmts)"
    unfolding es by (simp add: calls_concat comp_def)
  also have "\<dots> =
      [(''atmos.wetdays'', [pr], [(''thresh'', Str ''1 mm/day''), (''freq'', Str ''YS'')]),
       (''atmos.maximum_consecutive_dry_days'', [pr], [(''thresh'', Str ''1 mm/day''), (''freq'', Str ''YS'')]),
       (''atmos.maximum_consecutive_wet_days'', [pr], [(''thresh'', Str ''1 mm/day''), (''freq'', Str ''YS'')]),
       (''atmos.precip_accumulation'', [pr], [(''freq'', Str ''YS'')]),
       (''atmos.daily_pr_intensity'', [pr], [(''thresh'', Str ''1 mm/day''), (''freq'', Str ''YS'')]),
       (''atmos.max_1day_precipitation_amount'', [pr], [(''freq'', Str ''YS'')]),
       (''atmos.max_n_day_precipitation_amount'', [pr], [(''window'', Num 5), (''freq'', Str ''YS'')]),
       (''atmos.tx_max'', [tasmax], [(''freq'', Str ''YS'')]),
       (''atmos.tn_max'', [tasmin], [(''freq'', Str ''YS'')]),
       (''atmos.tx_min'', [tasmax], [(''freq'', Str ''YS'')]),
       (''atmos.tn_min'', [tasmin], [(''freq'', Str ''YS'')]),
       (''atmos.frost_days'', [tasmin], [(''freq'', Str ''YS'')]),
       (''atmos.ice_days'', [tasmax], [(''freq'', Str ''YS'')]),
       (''atmos.tx_days_above'', [tasmax], [(''thresh'', Str ''25 degC''), (''freq'', Str ''YS'')]),
       (''atmos.tropical_nights'', [tasmin], [(''thresh'', Str ''20 degC''), (''freq'', Str ''YS'')]),
       (''indices.tas'', [tasmin, tasmax], []),
       (''core.calendar.percentile_doy'', [tas], [(''per'', Num 10)]),
       (''core.calendar.percentile_doy'', [tas], [(''per'', Num 90)]),
       (''core.calendar.percentile_doy'', [tasmin], [(''per'', Num 10)]),
       (''atmos.tx10p'', [tasmax, t10], [(''freq'', Str ''YS'')]),
       (''atmos.tx90p'', [tasmax, t90], [(''freq'', Str ''YS'')]),
       (''atmos.tn10p'', [tasmin, t10], [(''freq'', Str ''YS'')]),
       (''atmos.tn90p'', [tasmin, t90], [(''freq'', Str ''YS'')]),
       (''atmos.cold_spell_duration_index'', [tasmin, tn10], [(''window'', Num 1), (''freq'', Str ''YS'')])]"
    by (simp add: indicator_stmts_def calls_exec_call pr v tas(1) t10(1) t90(1) tn10(1))
  finally show ?thesis
    using pr v tas t10 t90 tn10 by (intro that)
qed

lemma demo_written:
  "(demo_out, ''/out/indices.nc'', ''netcdf4'', 4)
     \<in> set (writes (effects (do_generate_indices demo_env [] [])))"
  by (simp add: demo_writes)

lemma demo_loaded: "fst (load_dataset demo_env [] [] (''/data/cmip'' @ ''*.nc'')) = Inr demo_ds"
  by (rule demo_load(1))

lemma demo_names: "dom (data_vars demo_out) = set (insert_funcs indicator_stmts)"
  unfolding demo_out_def dom_attach_empty insert_funcs_indicator_stmts
  by (simp add: demo_indices_def)

section \<open>The claims\<close>

text \<open>
  Claim C1.  Whenever the writer is handed a dataset, the names of its variables are exactly
  the names carried by the arrays that the indicator calls of that run returned, every
  variable sits under the name its array carries, and the run has made the 20 indicator calls
  of the script, each once and in program order (20 different functions).
\<close>

theorem output_variables_are_indicator_results:
  assumes "(ds_out, path, engine, enc) \<in> set (writes (effects (do_generate_indices env F fs)))"
  shows "dom (data_vars ds_out) =
           {name da |f vs kw da.
              (f, vs, kw) \<in> set (calls (effects (do_generate_indices env F fs))) \<and>
              f \<in> set (insert_funcs indicator_stmts) \<and>
              lib_result (re_match env) F (xc env f vs kw) = Inr da} \<and>
         (\<forall>n. case data_vars ds_out n of None \<Rightarrow> True | Some da \<Rightarrow> name da = n) \<and>
         map fst (filter (\<lambda>(f, vs, kw). f \<in> set (insert_funcs indicator_stmts))
                    (calls (effects (do_generate_indices env F fs))))
           = insert_funcs indicator_stmts \<and>
         length (insert_funcs indicator_stmts) = 20 \<and> distinct (insert_funcs indicator_stmts)"
proof -
  from assms obtain ds L es where
    ex: "exec_stmts env F ds indicator_stmts (Map.empty, Dataset (attrs ds) Map.empty)
           = (Inr (L, ds_out), es)" and
    cs: "calls (effects (do_generate_indices env F fs)) = calls es"
    by (rule written_dataset)
  let ?ins = "concat (map (inserted_by env F ds L) indicator_stmts)"
  have d0: "dom (Map.empty :: 'a locals) = set []" by simp
  note fw = exec_stmts_forward [OF well_formed_indicator_stmts d0 ex]
  have cons: "\<forall>s \<in> set indicator_stmts. consistent env F ds L s" using fw by blast
  have es: "es = concat (map (\<lambda>s. snd (exec_call env F ds L (call_of s))) indicator_stmts)"
    using fw by blast
  have out: "ds_out = attach (Dataset (attrs ds) Map.empty) ?ins" using fw by blast
  have "dom (data_vars ds_out) = fst ` set ?ins"
    unfolding out dom_attach_empty by simp
  then have a: "dom (data_vars ds_out) =
           {name da |f vs kw da.
              (f, vs, kw) \<in> set (calls (effects (do_generate_indices env F fs))) \<and>
              f \<in> set (insert_funcs indicator_stmts) \<and>
              lib_result (re_match env) F (xc env f vs kw) = Inr da}"
    unfolding cs es names_of_inserted [OF cons funcs_disjoint] .
  have b: "\<forall>n. case data_vars ds_out n of None \<Rightarrow> True | Some da \<Rightarrow> name da = n"
  proof
    fix n
    show "case data_vars ds_out n of None \<Rightarrow> True | Some da \<Rightarrow> name da = n"
    proof (cases "data_vars ds_out n")
      case None
      then show ?thesis by simp
    next
      case (Some da)
      then have "map_of (rev ?ins) n = Some da" by (simp add: out attach_def)
      then have "(n, da) \<in> set (rev ?ins)" by (rule map_of_SomeD)
      then have "(n, da) \<in> set ?ins" by (simp del: set_concat)
      then have "n = name da" unfolding set_inserted by blast
      then show ?thesis using Some by simp
    qed
  qed
  have "fst (exec_stmts env F ds indicator_stmts (Map.empty, Dataset (attrs ds) Map.empty))
          = Inr (L, ds_out)"
    using ex by simp
  from calls_exec_stmts_success [OF this]
  have "map fst (calls es) = map (func \<circ> call_of) indicator_stmts"
    using ex by (intro map_fst_signatures) simp
  then have c: "map fst (filter (\<lambda>(f, vs, kw). f \<in> set (insert_funcs indicator_stmts))
                    (calls (effects (do_generate_indices env F fs))))
           = insert_funcs indicator_stmts"
    by (simp only: cs map_fst_filter_calls indicator_calls_in_order)
  have d: "length (insert_funcs indicator_stmts) = 20 \<and> distinct (insert_funcs indicator_stmts)"
    by (simp add: insert_funcs_indicator_stmts)
  show ?thesis using a b c d by blast
qed

text \<open>
  In the concrete run the writer receives \<open>demo_out\<close>, whose variables are named after the
  20 indicator functions.
\<close>

theorem output_variables_are_indicator_results_witness:
  "(demo_out, ''/out/indices.nc'', ''netcdf4'', 4)
     \<in> set (writes (effects (do_generate_indices demo_env [] []))) \<and>
   dom (data_vars demo_out) = set (insert_funcs indicator_stmts) \<and>
   (dom (data_vars demo_out) =
           {name da |f vs kw da.
              (f, vs, kw) \<in> set (calls (effects (do_generate_indices demo_env [] []))) \<and>
              f \<in> set (insert_funcs indicator_stmts) \<and>
              lib_result (re_match demo_env) [] (xc demo_env f vs kw) = Inr da} \<and>
    (\<forall>n. case data_vars demo_out n of None \<Rightarrow> True | Some da \<Rightarrow> name da = n) \<and>
    map fst (filter (\<lambda>(f, vs, kw). f \<in> set (insert_funcs indicator_stmts))
                    (calls (effects (do_generate_indices demo_env [] []))))
           = insert_funcs indicator_stmts \<and>
    length (insert_funcs indicator_stmts) = 20 \<and> distinct (insert_funcs indicator_stmts))"
  by (rule conjI [OF demo_written conjI [OF demo_names
        output_variables_are_indicator_results [OF demo_written]]])

text \<open>
  Claim C2, as stated, fails: the script computes three day-of-year percentile series, not
  two, and five indicator calls read one of them, not four.  In the concrete run:
\<close>

theorem two_percentile_series_counterexample:
  "length (filter (\<lambda>(f, vs, kw). f = ''core.calendar.percentile_doy'')
             (calls (effects (do_generate_indices demo_env [] [])))) = 3 \<and>
   length (filter (\<lambda>(f, vs, kw). f \<in> set (insert_funcs indicator_stmts) \<and>
                      (demo_t10 \<in> set vs \<or> demo_t90 \<in> set vs \<or> demo_tn10 \<in> set vs))
             (calls (effects (do_generate_indices demo_env [] [])))) = 5 \<and>
   \<not> (length (filter (\<lambda>(f, vs, kw). f = ''core.calendar.percentile_doy'')
             (calls (effects (do_generate_indices demo_env [] [])))) = 2 \<and>
      length (filter (\<lambda>(f, vs, kw). f \<in> set (insert_funcs indicator_stmts) \<and>
                      (demo_t10 \<in> set vs \<or> demo_t90 \<in> set vs \<or> demo_tn10 \<in> set vs))
             (calls (effects (do_generate_indices demo_env [] [])))) = 4)"
proof -
  have a: "length (filter (\<lambda>(f, vs, kw). f = ''core.calendar.percentile_doy'')
             (calls (effects (do_generate_indices demo_env [] [])))) = 3"
    unfolding demo_calls demo_calls_def by simp
  have b: "length (filter (\<lambda>(f, vs, kw). f \<in> set (insert_funcs indicator_stmts) \<and>
                      (demo_t10 \<in> set vs \<or> demo_t90 \<in> set vs \<or> demo_tn10 \<in> set vs))
             (calls (effects (do_generate_indices demo_env [] [])))) = 5"
    unfolding demo_calls demo_calls_def insert_funcs_indicator_stmts
    by (simp add: demo_t10_def demo_t90_def demo_tn10_def demo_tas_def demo_result_def demo_var_def)
  show ?thesis using a b by simp
qed

text \<open>
  Claim C2, amended.  The derived intermediate series are the mean temperature and three
  day-of-year percentile series: the 10th and the 90th percentile of the mean temperature
  and the 10th percentile of the daily minimum temperature.  In a run that reaches the
  writer each of the four is computed exactly once, by these calls and in this order.  The
  mean temperature is read by two of the percentile calls; the two mean-temperature
  percentile series are read by exactly four indicator calls (two each), the
  minimum-temperature percentile series by one, the cold-spell-duration indicator.
\<close>

theorem intermediate_series_computed_once:
  assumes "get_folder_path env ''Select input folder'' = Some fldr"
      and "fst (load_dataset env F fs (fldr @ ''*.nc'')) = Inr ds"
      and "(ds_out, path, engine, enc) \<in> set (writes (effects (do_generate_indices env F fs)))"
  shows "(\<exists>tasmin tasmax tas.
            data_vars ds ''tasmin'' = Some tasmin \<and> data_vars ds ''tasmax'' = Some tasmax \<and>
            lib_result (re_match env) F (xc env ''indices.tas'' [tasmin, tasmax] []) = Inr tas \<and>
            filter (\<lambda>(f, vs, kw). f \<notin> set (insert_funcs indicator_stmts))
                (calls (effects (do_generate_indices env F fs)))
              = [(''indices.tas'', [tasmin, tasmax], []),
                 (''core.calendar.percentile_doy'', [tas], [(''per'', Num 10)]),
                 (''core.calendar.percentile_doy'', [tas], [(''per'', Num 90)]),
                 (''core.calendar.percentile_doy'', [tasmin], [(''per'', Num 10)])]) \<and>
         map fst (assignments indicator_stmts) = [''tas'', ''t10'', ''t90'', ''tn10''] \<and>
         readers ''tas'' indicator_stmts
           = [''core.calendar.percentile_doy'', ''core.calendar.percentile_doy''] \<and>
         readers ''t10'' indicator_stmts = [''atmos.tx10p'', ''atmos.tn10p''] \<and>
         readers ''t90'' indicator_stmts = [''atmos.tx90p'', ''atmos.tn90p''] \<and>
         readers ''tn10'' indicator_stmts = [''atmos.cold_spell_duration_index'']"
proof -
  from assms(3) obtain ds' L es where
    ld: "fst (load_dataset env F fs (the (get_folder_path env ''Select input folder'') @ ''*.nc'')) = Inr ds'" and
    ex: "exec_stmts env F ds' indicator_stmts (Map.empty, Dataset (attrs ds') Map.empty)
           = (Inr (L, ds_out), es)" and
    cs: "calls (effects (do_generate_indices env F fs)) = calls es"
    by (rule written_dataset)
  have same: "ds' = ds" using ld assms(1,2) by simp
  from ex obtain pr tasmax tasmin tas t10 t90 tn10 where
    v: "data_vars ds' ''tasmax'' = Some tasmax" "data_vars ds' ''tasmin'' = Some tasmin" and
    r: "lib_result (re_match env) F (xc env ''indices.tas'' [tasmin, tasmax] []) = Inr tas" and
    tr: "calls es =
      [(''atmos.wetdays'', [pr], [(''thresh'', Str ''1 mm/day''), (''freq'', Str ''YS'')]),
       (''atmos.maximum_consecutive_dry_days'', [pr], [(''thresh'', Str ''1 mm/day''), (''freq'', Str ''YS'')]),
       (''atmos.maximum_consecutive_wet_days'', [pr], [(''thresh'', Str ''1 mm/day''), (''freq'', Str ''YS'')]),
       (''atmos.precip_accumulation'', [pr], [(''freq'', Str ''YS'')]),
       (''atmos.daily_pr_intensity'', [pr], [(''thresh'', Str ''1 mm/day''), (''freq'', Str ''YS'')]),
       (''atmos.max_1day_precipitation_amount'', [pr], [(''freq'', Str ''YS'')]),
       (''atmos.max_n_day_precipitation_amount'', [pr], [(''window'', Num 5), (''freq'', Str ''YS'')]),
       (''atmos.tx_max'', [tasmax], [(''freq'', Str ''YS'')]),
       (''atmos.tn_max'', [tasmin], [(''freq'', Str ''YS'')]),
       (''atmos.tx_min'', [tasmax], [(''freq'', Str ''YS'')]),
       (''atmos.tn_min'', [tasmin], [(''freq'', Str ''YS'')]),
       (''atmos.frost_days'', [tasmin], [(''freq'', Str ''YS'')]),
       (''atmos.ice_days'', [tasmax], [(''freq'', Str ''YS'')]),
       (''atmos.tx_days_above'', [tasmax], [(''thresh'', Str ''25 degC''), (''freq'', Str ''YS'')]),
       (''atmos.tropical_nights'', [tasmin], [(''thresh'', Str ''20 degC''), (''freq'', Str ''YS'')]),
       (''indices.tas'', [tasmin, tasmax], []),
       (''core.calendar.percentile_doy'', [tas], [(''per'', Num 10)]),
       (''core.calendar.percentile_doy'', [tas], [(''per'', Num 90)]),
       (''core.calendar.percentile_doy'', [tasmin], [(''per'', Num 10)]),
       (''atmos.tx10p'', [tasmax, t10], [(''freq'', Str ''YS'')]),
       (''atmos.tx90p'', [tasmax, t90], [(''freq'', Str ''YS'')]),
       (''atmos.tn10p'', [tasmin, t10], [(''freq'', Str ''YS'')]),
       (''atmos.tn90p'', [tasmin, t90], [(''freq'', Str ''YS'')]),
       (''atmos.cold_spell_duration_index'', [tasmin, tn10], [(''window'', Num 1), (''freq'', Str ''YS'')])]"
    by (rule run_trace)
  have f: "filter (\<lambda>(f, vs, kw). f \<notin> set (insert_funcs indicator_stmts))
                (calls (effects (do_generate_indices env F fs)))
              = [(''indices.tas'', [tasmin, tasmax], []),
                 (''core.calendar.percentile_doy'', [tas], [(''per'', Num 10)]),
                 (''core.calendar.percentile_doy'', [tas], [(''per'', Num 90)]),
                 (''core.calendar.percentile_doy'', [tasmin], [(''per'', Num 10)])]"
    unfolding cs tr insert_funcs_indicator_stmts by simp
  have s: "map fst (assignments indicator_stmts) = [''tas'', ''t10'', ''t90'', ''tn10'']"
    "readers ''tas'' indicator_stmts
           = [''core.calendar.percentile_doy'', ''core.calendar.percentile_doy'']"
    "readers ''t10'' indicator_stmts = [''atmos.tx10p'', ''atmos.tn10p'']"
    "readers ''t90'' indicator_stmts = [''atmos.tx90p'', ''atmos.tn90p'']"
    "readers ''tn10'' indicator_stmts = [''atmos.cold_spell_duration_index'']"
    by (simp_all add: indicator_stmts_def)
  show ?thesis
    using v [unfolded same] r f s by blast
qed

text \<open>
  The four intermediate calls of the concrete run.
\<close>

theorem intermediate_series_computed_once_witness:
  "filter (\<lambda>(f, vs, kw). f \<notin> set (insert_funcs indicator_stmts))
       (calls (effects (do_generate_indices demo_env [] [])))
     = [(''indices.tas'', [demo_var ''tasmin'', demo_var ''tasmax''], []),
        (''core.calendar.percentile_doy'', [demo_tas], [(''per'', Num 10)]),
        (''core.calendar.percentile_doy'', [demo_tas], [(''per'', Num 90)]),
        (''core.calendar.percentile_doy'', [demo_var ''tasmin''], [(''per'', Num 10)])] \<and>
   ((\<exists>tasmin tasmax tas.
            data_vars demo_ds ''tasmin'' = Some tasmin \<and> data_vars demo_ds ''tasmax'' = Some tasmax \<and>
            lib_result (re_match demo_env) [] (xc demo_env ''indices.tas'' [tasmin, tasmax] []) = Inr tas \<and>
            filter (\<lambda>(f, vs, kw). f \<notin> set (insert_funcs indicator_stmts))
                (calls (effects (do_generate_indices demo_env [] [])))
              = [(''indices.tas'', [tasmin, tasmax], []),
                 (''core.calendar.percentile_doy'', [tas], [(''per'', Num 10)]),
                 (''core.calendar.percentile_doy'', [tas], [(''per'', Num 90)]),
                 (''core.calendar.percentile_doy'', [tasmin], [(''per'', Num 10)])]) \<and>
         map fst (assignments indicator_stmts) = [''tas'', ''t10'', ''t90'', ''tn10''] \<and>
         readers ''tas'' indicator_stmts
           = [''core.calendar.percentile_doy'', ''core.calendar.percentile_doy''] \<and>
         readers ''t10'' indicator_stmts = [''atmos.tx10p'', ''atmos.tn10p''] \<and>
         readers ''t90'' indicator_stmts = [''atmos.tx90p'', ''atmos.tn90p''] \<and>
         readers ''tn10'' indicator_stmts = [''atmos.cold_spell_duration_index''])"
proof -
  have a: "filter (\<lambda>(f, vs, kw). f \<notin> set (insert_funcs indicator_stmts))
       (calls (effects (do_generate_indices demo_env [] [])))
     = [(''indices.tas'', [demo_var ''tasmin'', demo_var ''tasmax''], []),
        (''core.calendar.percentile_doy'', [demo_tas], [(''per'', Num 10)]),
        (''core.calendar.percentile_doy'', [demo_tas], [(''per'', Num 90)]),
        (''core.calendar.percentile_doy'', [demo_var ''tasmin''], [(''per'', Num 10)])]"
    unfolding demo_calls demo_calls_def insert_funcs_indicator_stmts by simp
  show ?thesis
    by (rule conjI [OF a
          intermediate_series_computed_once [OF demo_dialogs(1) demo_loaded demo_written]])
qed

text \<open>
  Claim C3.  If either file dialog is cancelled (it returns \<^verbatim>\<open>None\<close> or the empty string), the
  run ends at once with the user-abort exception of that dialog: the file system is the one
  it started from, and the only effects are the dialogs themselves (the second dialog is not
  even shown when the first is cancelled).  No dataset is opened, no indicator is computed,
  nothing is handed to the writer.  The entry point adds nothing to such a run.
\<close>

theorem cancelled_dialog_aborts:
  assumes "falsy (get_folder_path env ''Select input folder'') \<or>
           falsy (get_save_path env ''Select output file'')"
  shows "do_generate_indices env F fs =
           \<lparr>files = fs,
            result = Inl (Exception (if falsy (get_folder_path env ''Select input folder'')
                            then ''Folder selection aborted'' else ''Save file selection aborted'')),
            effects = (if falsy (get_folder_path env ''Select input folder'')
                       then [GetFolderPath ''Select input folder'']
                       else [GetFolderPath ''Select input folder'', GetSavePath ''Select output file''])\<rparr>
         \<and> main env F fs = do_generate_indices env F fs"
proof -
  have "\<And>G. do_generate_indices env G fs =
           \<lparr>files = fs,
            result = Inl (Exception (if falsy (get_folder_path env ''Select input folder'')
                            then ''Folder selection aborted'' else ''Save file selection aborted'')),
            effects = (if falsy (get_folder_path env ''Select input folder'')
                       then [GetFolderPath ''Select input folder'']
                       else [GetFolderPath ''Select input folder'', GetSavePath ''Select output file''])\<rparr>"
    by (simp add: do_generate_indices_def build_output_def select_paths_cancel [OF assms])
  then show ?thesis by (simp add: main_def Let_def)
qed

text \<open>
  A run in which the save dialog is cancelled.
\<close>

theorem cancelled_dialog_aborts_witness:
  "falsy (get_save_path demo_cancel_env ''Select output file'') \<and>
   do_generate_indices demo_cancel_env [] [] =
     \<lparr>files = [],
      result = Inl (Exception ''Save file selection aborted''),
      effects = [GetFolderPath ''Select input folder'', GetSavePath ''Select output file'']\<rparr> \<and>
   main demo_cancel_env [] [] = do_generate_indices demo_cancel_env [] []"
proof -
  have c: "falsy (get_save_path demo_cancel_env ''Select output file'')"
    by (simp add: demo_cancel_env_def falsy_def)
  have f: "\<not> falsy (get_folder_path demo_cancel_env ''Select input folder'')"
    by (simp add: demo_cancel_env_def demo_env_def falsy_def)
  show ?thesis
    using cancelled_dialog_aborts [of demo_cancel_env "[]" "[]"] c f by simp
qed

text \<open>
  Claim C4.  Let \<open>ds\<close> be the dataset as loaded and resampled.  Every dataset handed to the
  writer has the global attributes of \<open>ds\<close>; and so has the output dataset after any
  initial part of the indicator statements: no insertion changes the attributes.
\<close>

theorem output_attributes_are_input_attributes:
  assumes "get_folder_path env ''Select input folder'' = Some fldr"
      and "fst (load_dataset env F fs (fldr @ ''*.nc'')) = Inr ds"
  shows "((ds_out, path, engine, enc) \<in> set (writes (effects (do_generate_indices env F fs)))
            \<longrightarrow> attrs ds_out = attrs ds) \<and>
         (indicator_stmts = ss @ rest \<and>
          fst (exec_stmts env F ds ss (Map.empty, Dataset (attrs ds) Map.empty)) = Inr (L, out)
            \<longrightarrow> attrs out = attrs ds)"
proof (intro conjI impI)
  assume "(ds_out, path, engine, enc) \<in> set (writes (effects (do_generate_indices env F fs)))"
  then obtain ds' L' es where
    ld: "fst (load_dataset env F fs (the (get_folder_path env ''Select input folder'') @ ''*.nc'')) = Inr ds'" and
    ex: "exec_stmts env F ds' indicator_stmts (Map.empty, Dataset (attrs ds') Map.empty)
           = (Inr (L', ds_out), es)"
    by (rule written_dataset)
  have "ds' = ds" using ld assms by simp
  moreover have "fst (exec_stmts env F ds' indicator_stmts (Map.empty, Dataset (attrs ds') Map.empty))
           = Inr (L', ds_out)" using ex by simp
  ultimately show "attrs ds_out = attrs ds"
    using exec_stmts_attrs by fastforce
next
  assume "indicator_stmts = ss @ rest \<and>
          fst (exec_stmts env F ds ss (Map.empty, Dataset (attrs ds) Map.empty)) = Inr (L, out)"
  then show "attrs out = attrs ds"
    using exec_stmts_attrs by fastforce
qed

text \<open>
  The concrete run writes a dataset with the attributes of its input.
\<close>

theorem output_attributes_are_input_attributes_witness:
  "get_folder_path demo_env ''Select input folder'' = Some ''/data/cmip'' \<and>
   fst (load_dataset demo_env [] [] (''/data/cmip'' @ ''*.nc'')) = Inr demo_ds \<and>
   (demo_out, ''/out/indices.nc'', ''netcdf4'', 4)
     \<in> set (writes (effects (do_generate_indices demo_env [] []))) \<and>
   attrs demo_out = attrs demo_ds \<and> attrs demo_ds ''title'' = Some ''demo''"
proof -
  note t = output_attributes_are_input_attributes [OF demo_dialogs(1) demo_loaded,
      of demo_out "''/out/indices.nc''" "''netcdf4''" 4 indicator_stmts "[]" demo_locals demo_out]
  have a: "attrs demo_out = attrs demo_ds"
    using t [THEN conjunct1] demo_written by (rule mp)
  have b: "attrs demo_ds ''title'' = Some ''demo''"
    by (simp add: demo_ds_def)
  show ?thesis
    by (rule conjI [OF demo_dialogs(1) conjI [OF demo_loaded conjI [OF demo_written conjI [OF a b]]]])
qed

text \<open>
  Claim C7.  Run through the entry point, the script shows no warning at all, whatever the
  libraries issue and whatever filters were installed before; nor is any warning turned
  into an exception.
\<close>

theorem warnings_suppressed:
  "shown (effects (main env F fs)) = [] \<and> (\<forall>x. result (main env F fs) \<noteq> Inl (WarningError x))"
  using quiet_do_generate_indices [of env F fs]
  by (auto simp: main_def quiet_def Let_def split: sum.splits)

text \<open>
  In the concrete run every library call issues a warning; none is shown.
\<close>

theorem warnings_suppressed_witness:
  "shown (effects (main demo_env [] [])) = [] \<and> result (main demo_env [] []) = Inr ()"
proof -
  have "result (main demo_env [] []) = Inr ()"
    using demo_result(2) [of "[]" "[]"] by (simp add: main_def Let_def)
  then show ?thesis using warnings_suppressed [of demo_env "[]" "[]"] by simp
qed

text \<open>
  Claim C8.  When the folder dialog returns the non-empty path \<open>fldr\<close>, the dataset
  loader is called at most once (not at all if the save dialog is cancelled), and the glob
  pattern it receives is \<open>fldr\<close> followed directly by \<^verbatim>\<open>*.nc\<close>.  No path below the
  folder, \<open>fldr\<close> then a separator then a file name, matches that pattern: the pattern
  has one separator less.  (When \<open>fldr\<close> itself ends in a separator the files of the folder
  are \<open>fldr\<close> followed by the file name, and those the pattern does match:
  \<open>glob_match_trailing_separator\<close>.)
\<close>

theorem loader_pattern:
  assumes "get_folder_path env ''Select input folder'' = Some fldr" and "fldr \<noteq> []"
  shows "opens (effects (do_generate_indices env F fs)) =
           (if falsy (get_save_path env ''Select output file'') then []
            else [(fldr @ ''*.nc'', ''netcdf4'')])
         \<and> \<not> glob_match (fldr @ ''*.nc'') (fldr @ ''/'' @ fname)"
  using assms glob_match_not_inside [of fldr fname]
  by (simp add: effects_do_generate_indices opens_build_output falsy_def)

text \<open>
  For the folder \<^verbatim>\<open>/data/cmip\<close> the pattern misses the folder's files and matches its
  siblings.
\<close>

theorem loader_pattern_witness:
  "opens (effects (do_generate_indices demo_env [] [])) = [(''/data/cmip*.nc'', ''netcdf4'')] \<and>
   \<not> glob_match ''/data/cmip*.nc'' ''/data/cmip/pr_2001.nc'' \<and>
   glob_match ''/data/cmip*.nc'' ''/data/cmip_old.nc''"
proof -
  have "glob_match ''/data/cmip*.nc'' ''/data/cmip_old.nc''" by simp
  then show ?thesis
    using loader_pattern [of demo_env "''/data/cmip''" "[]" "[]" "''pr_2001.nc''"]
    by (simp add: demo_dialogs falsy_def)
qed

text \<open>
  Claim C9.  In a run that reaches the writer, the one call of \<^verbatim>\<open>tn10p\<close> receives the daily
  minimum temperature and, as threshold, the array returned by \<^verbatim>\<open>percentile_doy(tas, per=10)\<close>,
  where \<^verbatim>\<open>tas\<close> is the mean temperature computed from \<^verbatim>\<open>tasmin\<close> and \<^verbatim>\<open>tasmax\<close>; it is
  the array that the call of \<^verbatim>\<open>tx10p\<close> receives.  The 10th percentile of the daily minimum
  temperature is a different call of \<^verbatim>\<open>percentile_doy\<close>, whose result is bound to \<^verbatim>\<open>tn10\<close>;
  the only statement that reads \<^verbatim>\<open>tn10\<close> is the cold-spell-duration call.
\<close>

theorem tn10p_reads_mean_temperature_percentile:
  assumes "get_folder_path env ''Select input folder'' = Some fldr"
      and "fst (load_dataset env F fs (fldr @ ''*.nc'')) = Inr ds"
      and "(ds_out, path, engine, enc) \<in> set (writes (effects (do_generate_indices env F fs)))"
  shows "(\<exists>tasmin tasmax tas t10 tn10.
            data_vars ds ''tasmin'' = Some tasmin \<and> data_vars ds ''tasmax'' = Some tasmax \<and>
            lib_result (re_match env) F (xc env ''indices.tas'' [tasmin, tasmax] []) = Inr tas \<and>
            lib_result (re_match env) F
              (xc env ''core.calendar.percentile_doy'' [tas] [(''per'', Num 10)]) = Inr t10 \<and>
            lib_result (re_match env) F
              (xc env ''core.calendar.percentile_doy'' [tasmin] [(''per'', Num 10)]) = Inr tn10 \<and>
            filter (\<lambda>(f, vs, kw). f = ''atmos.tn10p'')
                (calls (effects (do_generate_indices env F fs)))
              = [(''atmos.tn10p'', [tasmin, t10], [(''freq'', Str ''YS'')])] \<and>
            filter (\<lambda>(f, vs, kw). f = ''atmos.tx10p'')
                (calls (effects (do_generate_indices env F fs)))
              = [(''atmos.tx10p'', [tasmax, t10], [(''freq'', Str ''YS'')])] \<and>
            filter (\<lambda>(f, vs, kw). f = ''atmos.cold_spell_duration_index'')
                (calls (effects (do_generate_indices env F fs)))
              = [(''atmos.cold_spell_duration_index'', [tasmin, tn10],
                  [(''window'', Num 1), (''freq'', Str ''YS'')])]) \<and>
         readers ''t10'' indicator_stmts = [''atmos.tx10p'', ''atmos.tn10p''] \<and>
         readers ''tn10'' indicator_stmts = [''atmos.cold_spell_duration_index'']"
proof -
  from assms(3) obtain ds' L es where
    ld: "fst (load_dataset env F fs (the (get_folder_path env ''Select input folder'') @ ''*.nc'')) = Inr ds'" and
    ex: "exec_stmts env F ds' indicator_stmts (Map.empty, Dataset (attrs ds') Map.empty)
           = (Inr (L, ds_out), es)" and
    cs: "calls (effects (do_generate_indices env F fs)) = calls es"
    by (rule written_dataset)
  have same: "ds' = ds" using ld assms(1,2) by simp
  from ex obtain pr tasmax tasmin tas t10 t90 tn10 where
    v: "data_vars ds' ''tasmax'' = Some tasmax" "data_vars ds' ''tasmin'' = Some tasmin" and
    r: "lib_result (re_match env) F (xc env ''indices.tas'' [tasmin, tasmax] []) = Inr tas"
       "lib_result (re_match env) F (xc env ''core.calendar.percentile_doy'' [tas] [(''per'', Num 10)]) = Inr t10"
       "lib_result (re_match env) F (xc env ''core.calendar.percentile_doy'' [tasmin] [(''per'', Num 10)]) = Inr tn10" and
    tr: "calls es =
      [(''atmos.wetdays'', [pr], [(''thresh'', Str ''1 mm/day''), (''freq'', Str ''YS'')]),
       (''atmos.maximum_consecutive_dry_days'', [pr], [(''thresh'', Str ''1 mm/day''), (''freq'', Str ''YS'')]),
       (''atmos.maximum_consecutive_wet_days'', [pr], [(''thresh'', Str ''1 mm/day''), (''freq'', Str ''YS'')]),
       (''atmos.precip_accumulation'', [pr], [(''freq'', Str ''YS'')]),
       (''atmos.daily_pr_intensity'', [pr], [(''thresh'', Str ''1 mm/day''), (''freq'', Str ''YS'')]),
       (''atmos.max_1day_precipitation_amount'', [pr], [(''freq'', Str ''YS'')]),
       (''atmos.max_n_day_precipitation_amount'', [pr], [(''window'', Num 5), (''freq'', Str ''YS'')]),
       (''atmos.tx_max'', [tasmax], [(''freq'', Str ''YS'')]),
       (''atmos.tn_max'', [tasmin], [(''freq'', Str ''YS'')]),
       (''atmos.tx_min'', [tasmax], [(''freq'', Str ''YS'')]),
       (''atmos.tn_min'', [tasmin], [(''freq'', Str ''YS'')]),
       (''atmos.frost_days'', [tasmin], [(''freq'', Str ''YS'')]),
       (''atmos.ice_days'', [tasmax], [(''freq'', Str ''YS'')]),
       (''atmos.tx_days_above'', [tasmax], [(''thresh'', Str ''25 degC''), (''freq'', Str ''YS'')]),
       (''atmos.tropical_nights'', [tasmin], [(''thresh'', Str ''20 degC''), (''freq'', Str ''YS'')]),
       (''indices.tas'', [tasmin, tasmax], []),
       (''core.calendar.percentile_doy'', [tas], [(''per'', Num 10)]),
       (''core.calendar.percentile_doy'', [tas], [(''per'', Num 90)]),
       (''core.calendar.percentile_doy'', [tasmin], [(''per'', Num 10)]),
       (''atmos.tx10p'', [tasmax, t10], [(''freq'', Str ''YS'')]),
       (''atmos.tx90p'', [tasmax, t90], [(''freq'', Str ''YS'')]),
       (''atmos.tn10p'', [tasmin, t10], [(''freq'', Str ''YS'')]),
       (''atmos.tn90p'', [tasmin, t90], [(''freq'', Str ''YS'')]),
       (''atmos.cold_spell_duration_index'', [tasmin, tn10], [(''window'', Num 1), (''freq'', Str ''YS'')])]"
    by (rule run_trace)
  have f1: "filter (\<lambda>(f, vs, kw). f = ''atmos.tn10p'') (calls (effects (do_generate_indices env F fs)))
              = [(''atmos.tn10p'', [tasmin, t10], [(''freq'', Str ''YS'')])]"
    unfolding cs tr by simp
  have f2: "filter (\<lambda>(f, vs, kw). f = ''atmos.tx10p'') (calls (effects (do_generate_indices env F fs)))
              = [(''atmos.tx10p'', [tasmax, t10], [(''freq'', Str ''YS'')])]"
    unfolding cs tr by simp
  have f3: "filter (\<lambda>(f, vs, kw). f = ''atmos.cold_spell_duration_index'')
                (calls (effects (do_generate_indices env F fs)))
              = [(''atmos.cold_spell_duration_index'', [tasmin, tn10],
                  [(''window'', Num 1), (''freq'', Str ''YS'')])]"
    unfolding cs tr by simp
  have s1: "readers ''t10'' indicator_stmts = [''atmos.tx10p'', ''atmos.tn10p'']"
    by (simp add: indicator_stmts_def)
  have s2: "readers ''tn10'' indicator_stmts = [''atmos.cold_spell_duration_index'']"
    by (simp add: indicator_stmts_def)
  show ?thesis
    using v [unfolded same] r f1 f2 f3 s1 s2 by blast
qed

text \<open>
  In the concrete run the two percentile arrays differ, and \<^verbatim>\<open>tn10p\<close> gets the one of the
  mean temperature.
\<close>

theorem tn10p_reads_mean_temperature_percentile_witness:
  "filter (\<lambda>(f, vs, kw). f = ''atmos.tn10p'') (calls (effects (do_generate_indices demo_env [] [])))
     = [(''atmos.tn10p'', [demo_var ''tasmin'', demo_t10], [(''freq'', Str ''YS'')])] \<and>
   demo_t10 \<noteq> demo_tn10 \<and>
   ((\<exists>tasmin tasmax tas t10 tn10.
            data_vars demo_ds ''tasmin'' = Some tasmin \<and> data_vars demo_ds ''tasmax'' = Some tasmax \<and>
            lib_result (re_match demo_env) [] (xc demo_env ''indices.tas'' [tasmin, tasmax] []) = Inr tas \<and>
            lib_result (re_match demo_env) []
              (xc demo_env ''core.calendar.percentile_doy'' [tas] [(''per'', Num 10)]) = Inr t10 \<and>
            lib_result (re_match demo_env) []
              (xc demo_env ''core.calendar.percentile_doy'' [tasmin] [(''per'', Num 10)]) = Inr tn10 \<and>
            filter (\<lambda>(f, vs, kw). f = ''atmos.tn10p'')
                (calls (effects (do_generate_indices demo_env [] [])))
              = [(''atmos.tn10p'', [tasmin, t10], [(''freq'', Str ''YS'')])] \<and>
            filter (\<lambda>(f, vs, kw). f = ''atmos.tx10p'')
                (calls (effects (do_generate_indices demo_env [] [])))
              = [(''atmos.tx10p'', [tasmax, t10], [(''freq'', Str ''YS'')])] \<and>
            filter (\<lambda>(f, vs, kw). f = ''atmos.cold_spell_duration_index'')
                (calls (effects (do_generate_indices demo_env [] [])))
              = [(''atmos.cold_spell_duration_index'', [tasmin, tn10],
                  [(''window'', Num 1), (''freq'', Str ''YS'')])]) \<and>
         readers ''t10'' indicator_stmts = [''atmos.tx10p'', ''atmos.tn10p''] \<and>
         readers ''tn10'' indicator_stmts = [''atmos.cold_spell_duration_index''])"
proof -
  have a: "filter (\<lambda>(f, vs, kw). f = ''atmos.tn10p'') (calls (effects (do_generate_indices demo_env [] [])))
     = [(''atmos.tn10p'', [demo_var ''tasmin'', demo_t10], [(''freq'', Str ''YS'')])]"
    unfolding demo_calls demo_calls_def by simp
  have b: "demo_t10 \<noteq> demo_tn10"
    by (simp add: demo_t10_def demo_tn10_def demo_result_def demo_tas_def demo_var_def)
  show ?thesis
    by (rule conjI [OF a conjI [OF b
          tn10p_reads_mean_temperature_percentile [OF demo_dialogs(1) demo_loaded demo_written]]])
qed

text \<open>
  Claim C10.  In every run, whenever the cold-spell-duration indicator is called its keyword
  arguments are \<^verbatim>\<open>window=1, freq='YS'\<close>; the warm-spell-duration indicator is never called;
  and a run that returns has called the cold-spell-duration indicator exactly once.
\<close>

theorem csdi_window_one_and_no_wsdi:
  "(\<forall>vs kw. (''atmos.cold_spell_duration_index'', vs, kw)
              \<in> set (calls (effects (do_generate_indices env F fs)))
            \<longrightarrow> kw = [(''window'', Num 1), (''freq'', Str ''YS'')]) \<and>
   (\<forall>vs kw. (''atmos.warm_spell_duration_index'', vs, kw)
              \<notin> set (calls (effects (do_generate_indices env F fs)))) \<and>
   (result (do_generate_indices env F fs) = Inr () \<longrightarrow>
      filter (\<lambda>(f, kw). f = ''atmos.cold_spell_duration_index'')
        (map (\<lambda>(f, vs, kw). (f, kw)) (calls (effects (do_generate_indices env F fs))))
      = [(''atmos.cold_spell_duration_index'', [(''window'', Num 1), (''freq'', Str ''YS'')])])"
proof -
  let ?cs = "calls (effects (do_generate_indices env F fs))"
  have sub: "set (map (\<lambda>(f, vs, kw). (f, kw)) ?cs) \<subseteq> set (map (signature \<circ> call_of) indicator_stmts)"
    using calls_build_output_prefix [of env F fs]
    by (simp only: effects_do_generate_indices) (rule set_mono_prefix)
  have mem: "\<And>f vs kw. (f, vs, kw) \<in> set ?cs \<Longrightarrow> (f, kw) \<in> set (map (signature \<circ> call_of) indicator_stmts)"
  proof -
    fix f vs kw assume "(f, vs, kw) \<in> set ?cs"
    then have "(\<lambda>(f, vs, kw). (f, kw)) (f, vs, kw) \<in> set (map (\<lambda>(f, vs, kw). (f, kw)) ?cs)"
      by (simp only: set_map) (rule imageI)
    then show "(f, kw) \<in> set (map (signature \<circ> call_of) indicator_stmts)"
      using sub by auto
  qed
  have a: "\<And>vs kw. (''atmos.cold_spell_duration_index'', vs, kw) \<in> set ?cs
            \<Longrightarrow> kw = [(''window'', Num 1), (''freq'', Str ''YS'')]"
    using mem [of "''atmos.cold_spell_duration_index''"] unfolding signatures by simp
  have b: "\<And>vs kw. (''atmos.warm_spell_duration_index'', vs, kw) \<notin> set ?cs"
    using mem [of "''atmos.warm_spell_duration_index''"] unfolding signatures by auto
  have c: "result (do_generate_indices env F fs) = Inr () \<Longrightarrow>
      filter (\<lambda>(f, kw). f = ''atmos.cold_spell_duration_index'')
        (map (\<lambda>(f, vs, kw). (f, kw)) ?cs)
      = [(''atmos.cold_spell_duration_index'', [(''window'', Num 1), (''freq'', Str ''YS'')])]"
  proof -
    assume "result (do_generate_indices env F fs) = Inr ()"
    from result_do_generate_indices [OF this]
    obtain ds_out file_out where "fst (build_output env F fs) = Inr (ds_out, file_out)"
      by blast
    from calls_build_output_success [OF this]
    show ?thesis
      by (simp only: effects_do_generate_indices signatures) simp
  qed
  show ?thesis using a b c by blast
qed

text \<open>
  The cold-spell-duration call of the concrete run.
\<close>

theorem csdi_window_one_and_no_wsdi_witness:
  "(''atmos.cold_spell_duration_index'', [demo_var ''tasmin'', demo_tn10],
      [(''window'', Num 1), (''freq'', Str ''YS'')])
     \<in> set (calls (effects (do_generate_indices demo_env [] []))) \<and>
   result (do_generate_indices demo_env [] []) = Inr () \<and>
   filter (\<lambda>(f, kw). f = ''atmos.cold_spell_duration_index'')
     (map (\<lambda>(f, vs, kw). (f, kw)) (calls (effects (do_generate_indices demo_env [] []))))
     = [(''atmos.cold_spell_duration_index'', [(''window'', Num 1), (''freq'', Str ''YS'')])]"
proof -
  have m: "(''atmos.cold_spell_duration_index'', [demo_var ''tasmin'', demo_tn10],
      [(''window'', Num 1), (''freq'', Str ''YS'')])
     \<in> set (calls (effects (do_generate_indices demo_env [] [])))"
    by (simp add: demo_calls demo_calls_def)
  note t = csdi_window_one_and_no_wsdi [of demo_env "[]" "[]"]
  have r: "result (do_generate_indices demo_env [] []) = Inr ()"
    by (rule demo_result(1))
  have f: "filter (\<lambda>(f, kw). f = ''atmos.cold_spell_duration_index'')
     (map (\<lambda>(f, vs, kw). (f, kw)) (calls (effects (do_generate_indices demo_env [] []))))
     = [(''atmos.cold_spell_duration_index'', [(''window'', Num 1), (''freq'', Str ''YS'')])]"
    using t [THEN conjunct2, THEN conjunct2] r by (rule mp)
  show ?thesis using m r f by (intro conjI)
qed

end
